theory Spec2Isabelle
  imports Complex_Main "HOL-Library.Log_Nat"
begin

section \<open>Python values\<close>

text \<open>
  Python \<open>int\<close> is \<^typ>\<open>int\<close>. A Python \<open>float\<close> is an IEEE 754 double: the section on
  Python floats below gives its arithmetic, with the rounding of every operation. The
  functions that only compare and print the numbers they are given (the benchmark table
  and the anomaly rules) take each number as the real it denotes.
  Every exception the modelled functions can raise is a value of \<open>py_error\<close>; a function
  that may raise returns \<open>py_error + 'a\<close> with \<open>Inl\<close> for the exception. OverflowError
  is what Python raises when an int is too large to become a float, when the quotient of
  two ints is, and when \<open>round\<close> is. \<open>NonFinite\<close> is no exception of Python: it is the
  outcome of a float operation that yields an infinity or NaN, which Python hands on as a
  value. A function that meets one ends with \<open>Inl NonFinite\<close> and is followed no further,
  so a result \<open>Inr\<close> is a result that the code computes through finite numbers only.
  Text that the source writes with characters outside ASCII (Chinese wording, emoji) is
  replaced by an ASCII stand-in; the source line is given beside each.
\<close>

datatype py_error = ZeroDivisionError | ValueError | TypeError | OverflowError | NonFinite

definition ebind :: "py_error + 'a \<Rightarrow> ('a \<Rightarrow> py_error + 'b) \<Rightarrow> py_error + 'b" where
  "ebind m f = (case m of Inl e \<Rightarrow> Inl e | Inr v \<Rightarrow> f v)"

text \<open>
  True division \<open>a / b\<close> on exact values: raises on a zero divisor, for ints and floats
  alike.
\<close>

definition py_div :: "real \<Rightarrow> real \<Rightarrow> py_error + real" where
  "py_div a b = (if b = 0 then Inl ZeroDivisionError else Inr (a / b))"

text \<open>
  Rounding to \<open>n\<close> decimal places, a tie going to the even neighbour: \<open>round(x, n)\<close> is
  the double nearest to \<open>py_round x n\<close>.
\<close>

definition round_half_even :: "real \<Rightarrow> int" where
  "round_half_even x =
     (let f = \<lfloor>x\<rfloor>; d = x - of_int f
      in if d < 1 / 2 then f else if 1 / 2 < d then f + 1 else if even f then f else f + 1)"

definition py_round :: "real \<Rightarrow> nat \<Rightarrow> real" where
  "py_round x n = of_int (round_half_even (x * 10 ^ n)) / 10 ^ n"

text \<open>A dictionary of metric values, and \<open>d.get(k, 0)\<close>.\<close>

type_synonym metrics = "string \<rightharpoonup> real"

definition get0 :: "metrics \<Rightarrow> string \<Rightarrow> real" where
  "get0 d k = (case d k of None \<Rightarrow> 0 | Some v \<Rightarrow> v)"

text \<open>\<open>xs.index(x)\<close>: the first position of \<open>x\<close>, ValueError when it is absent.\<close>

fun index_of :: "'a list \<Rightarrow> 'a \<Rightarrow> py_error + nat" where
  "index_of [] x = Inl ValueError"
| "index_of (y # ys) x =
     (if y = x then Inr 0 else ebind (index_of ys x) (\<lambda>i. Inr (Suc i)))"


section \<open>Python floats\<close>

text \<open>
  A finite double is a real of the form \<open>m * 2 ^ e\<close> with \<open>\<bar>m\<bar> < 2 ^ 53\<close> and
  \<open>- 1074 \<le> e \<le> 971\<close>; it is modelled by that real (so the two zeros are one value).
  \<open>binade x\<close> is the exponent \<open>b\<close> with \<open>2 ^ b \<le> \<bar>x\<bar> < 2 ^ (b + 1)\<close>, and \<open>pow2 e\<close> is
  \<open>2 ^ e\<close> for an integer \<open>e\<close>. \<open>fl x\<close> is the double nearest to the real \<open>x\<close>, a tie going
  to the even significand, as IEEE 754 rounds the exact result of every operation: the
  doubles around \<open>x\<close> are the multiples of \<open>2 ^ (b - 52)\<close>, and of \<open>2 ^ - 1074\<close> in the
  subnormal range. \<open>double_of x\<close> is \<open>fl x\<close> when that is a finite double; at \<open>2 ^ 1024\<close>
  and beyond the rounded result overflows.
\<close>

definition binade :: "real \<Rightarrow> int" where
  "binade x = (if 1 \<le> \<bar>x\<bar> then bitlen \<lfloor>\<bar>x\<bar>\<rfloor> - 1 else - bitlen (\<lceil>1 / \<bar>x\<bar>\<rceil> - 1))"

definition pow2 :: "int \<Rightarrow> real" where
  "pow2 e = (if 0 \<le> e then 2 ^ nat e else 1 / 2 ^ nat (- e))"

definition fl :: "real \<Rightarrow> real" where
  "fl x = (if x = 0 then 0
           else let u = pow2 (max (binade x - 52) (- 1074))
                in of_int (round_half_even (x / u)) * u)"

definition double_of :: "real \<Rightarrow> real option" where
  "double_of x = (if \<bar>fl x\<bar> < 2 ^ 1024 then Some (fl x) else None)"

text \<open>
  A Python number is an int or a finite float; \<open>value_of\<close> is the real it denotes, by which
  Python compares numbers (\<open><\<close>, \<open>>\<close> and \<open>==\<close> between ints and floats are exact). A float
  literal of the source, such as \<open>1.1\<close>, is the double nearest to the decimal.
\<close>

datatype number = PyInt int | PyFloat real

fun value_of :: "number \<Rightarrow> real" where
  "value_of (PyInt n) = of_int n"
| "value_of (PyFloat x) = x"

definition float_literal :: "real \<Rightarrow> number" where
  "float_literal x = PyFloat (fl x)"

text \<open>
  The arithmetic of Python numbers. Between two ints \<open>+\<close>, \<open>-\<close> and \<open>*\<close> are exact and
  \<open>/\<close> is the double nearest to the quotient (OverflowError when there is none). In every
  other case both operands become floats (\<open>to_float\<close>: an int becomes the nearest double,
  OverflowError when there is none) and the exact result is rounded to the nearest
  double (\<open>float_result\<close>); when it overflows Python yields an infinity, the outcome
  \<open>NonFinite\<close>. A division by zero raises ZeroDivisionError. \<open>round(x, n)\<close> leaves an int
  as it is (for \<open>n \<ge> 0\<close>) and rounds a float to the double nearest to the decimal rounding
  of its exact value.
\<close>

definition to_float :: "number \<Rightarrow> py_error + real" where
  "to_float a =
     (case a of
        PyInt n \<Rightarrow> (case double_of (of_int n) of None \<Rightarrow> Inl OverflowError | Some d \<Rightarrow> Inr d)
      | PyFloat x \<Rightarrow> Inr x)"

definition float_result :: "real \<Rightarrow> py_error + number" where
  "float_result x = (case double_of x of None \<Rightarrow> Inl NonFinite | Some d \<Rightarrow> Inr (PyFloat d))"

fun num_add :: "number \<Rightarrow> number \<Rightarrow> py_error + number" where
  "num_add (PyInt m) (PyInt n) = Inr (PyInt (m + n))"
| "num_add a b = ebind (to_float a) (\<lambda>x. ebind (to_float b) (\<lambda>y. float_result (x + y)))"

fun num_sub :: "number \<Rightarrow> number \<Rightarrow> py_error + number" where
  "num_sub (PyInt m) (PyInt n) = Inr (PyInt (m - n))"
| "num_sub a b = ebind (to_float a) (\<lambda>x. ebind (to_float b) (\<lambda>y. float_result (x - y)))"

fun num_mul :: "number \<Rightarrow> number \<Rightarrow> py_error + number" where
  "num_mul (PyInt m) (PyInt n) = Inr (PyInt (m * n))"
| "num_mul a b = ebind (to_float a) (\<lambda>x. ebind (to_float b) (\<lambda>y. float_result (x * y)))"

fun num_truediv :: "number \<Rightarrow> number \<Rightarrow> py_error + number" where
  "num_truediv (PyInt m) (PyInt n) =
     (if n = 0 then Inl ZeroDivisionError
      else case double_of (of_int m / of_int n) of
             None \<Rightarrow> Inl OverflowError | Some d \<Rightarrow> Inr (PyFloat d))"
| "num_truediv a b =
     ebind (to_float a) (\<lambda>x. ebind (to_float b) (\<lambda>y.
       if y = 0 then Inl ZeroDivisionError else float_result (x / y)))"

fun num_round :: "number \<Rightarrow> nat \<Rightarrow> py_error + number" where
  "num_round (PyInt n) digits = Inr (PyInt n)"
| "num_round (PyFloat x) digits =
     (case double_of (py_round x digits) of
        None \<Rightarrow> Inl OverflowError | Some d \<Rightarrow> Inr (PyFloat d))"

text \<open>A dictionary of Python numbers, and \<open>d.get(k, 0)\<close> with its int default.\<close>

type_synonym numbers = "string \<rightharpoonup> number"

definition num0 :: "numbers \<Rightarrow> string \<Rightarrow> number" where
  "num0 d k = (case d k of None \<Rightarrow> PyInt 0 | Some v \<Rightarrow> v)"

text \<open>
  Vocabulary for the statements: a number of ordinary size is an int below \<open>2 ^ 52\<close> or a
  float up to \<open>10 ^ 280\<close> in magnitude, and a number clear of zero is not a positive number
  below one millionth. Between such numbers no operation of the modelled functions leaves
  the finite doubles.
\<close>

fun ordinary :: "number \<Rightarrow> bool" where
  "ordinary (PyInt n) = (\<bar>n\<bar> < 2 ^ 52)"
| "ordinary (PyFloat x) = (\<bar>x\<bar> \<le> 10 ^ 280)"

definition clear_of_zero :: "number \<Rightarrow> bool" where
  "clear_of_zero a = (value_of a \<le> 0 \<or> 1 / 10 ^ 6 \<le> value_of a)"


section \<open>data/meta_api.py: aggregate_metrics\<close>

text \<open>
  One record of the insights list. Lines 217-221 read every numeric field as
  \<open>int(item.get(f, 0) or 0)\<close> or \<open>float(item.get(f, 0) or 0)\<close>: a field is \<open>Absent\<close> when
  the key is missing or its value is falsy (the conversion gives 0), \<open>Val v\<close> when the
  conversion gives \<open>v\<close>, and \<open>Bad\<close> when the conversion raises ValueError.
  \<open>date_start\<close> is \<open>item.get('date_start')\<close>, \<open>None\<close> when the key is missing.
\<close>

datatype 'a field = Absent | Val 'a | Bad

fun conv :: "'a::zero field \<Rightarrow> py_error + 'a" where
  "conv Absent = Inr 0"
| "conv (Val v) = Inr v"
| "conv Bad = Inl ValueError"

record insight =
  date_start :: "string option"
  impressions :: "int field"
  clicks :: "int field"
  spend :: "real field"
  conversions :: "int field"
  conversion_values :: "real field"

text \<open>The running sums of the dictionary \<open>total\<close> (lines 207-214), with its \<open>days\<close> entry.\<close>

record totals =
  t_impressions :: int
  t_clicks :: int
  t_spend :: real
  t_conversions :: int
  t_conversion_values :: real
  t_days :: nat

definition initial_totals :: "insight list \<Rightarrow> totals" where
  "initial_totals data =
     \<lparr>t_impressions = 0, t_clicks = 0, t_spend = 0, t_conversions = 0,
      t_conversion_values = 0, t_days = length (remdups (map date_start data))\<rparr>"

text \<open>One pass of the loop of lines 216-221.\<close>

definition add_item :: "totals \<Rightarrow> insight \<Rightarrow> py_error + totals" where
  "add_item tot item =
     ebind (conv (impressions item)) (\<lambda>i.
     ebind (conv (clicks item)) (\<lambda>c.
     ebind (conv (spend item)) (\<lambda>s.
     ebind (conv (conversions item)) (\<lambda>n.
     ebind (conv (conversion_values item)) (\<lambda>v.
       Inr (tot\<lparr>t_impressions := t_impressions tot + i,
                t_clicks := t_clicks tot + c,
                t_spend := t_spend tot + s,
                t_conversions := t_conversions tot + n,
                t_conversion_values := t_conversion_values tot + v\<rparr>))))))"

fun sum_items :: "totals \<Rightarrow> insight list \<Rightarrow> py_error + totals" where
  "sum_items tot [] = Inr tot"
| "sum_items tot (item # rest) = ebind (add_item tot item) (\<lambda>tot'. sum_items tot' rest)"

text \<open>
  The derived metrics of lines 224-250. \<open>cpa\<close> and \<open>conversion_rate\<close> share the guard
  \<open>total['conversions'] > 0\<close> (line 234); the division by \<open>total['clicks']\<close> of line 236
  is under no guard of its own.
\<close>

definition derive :: "totals \<Rightarrow> py_error + metrics" where
  "derive tot =
     (let ctr = (if t_impressions tot > 0
                 then of_int (t_clicks tot) / of_int (t_impressions tot) * 100 else 0);
          cpc = (if t_clicks tot > 0 then t_spend tot / of_int (t_clicks tot) else 0)
      in ebind (if t_conversions tot > 0
                then ebind (py_div (t_spend tot) (of_int (t_conversions tot))) (\<lambda>cpa.
                     ebind (py_div (of_int (t_conversions tot)) (of_int (t_clicks tot))) (\<lambda>q.
                       Inr (cpa, q * 100)))
                else Inr (0, 0)) (\<lambda>(cpa, conversion_rate).
         let roas = (if t_spend tot > 0 then t_conversion_values tot / t_spend tot else 0);
             frequency = (if t_impressions tot > 0 \<and> t_days tot > 0
                          then of_int (t_impressions tot) / of_nat (t_days tot) else 0)
         in Inr [''impressions'' \<mapsto> of_int (t_impressions tot),
                 ''clicks'' \<mapsto> of_int (t_clicks tot),
                 ''spend'' \<mapsto> t_spend tot,
                 ''conversions'' \<mapsto> of_int (t_conversions tot),
                 ''conversion_values'' \<mapsto> t_conversion_values tot,
                 ''days'' \<mapsto> of_nat (t_days tot),
                 ''ctr'' \<mapsto> ctr, ''cpc'' \<mapsto> cpc, ''cpa'' \<mapsto> cpa,
                 ''conversion_rate'' \<mapsto> conversion_rate,
                 ''roas'' \<mapsto> roas, ''frequency'' \<mapsto> frequency]))"

definition aggregate_metrics :: "insight list \<Rightarrow> py_error + metrics" where
  "aggregate_metrics data =
     (if data = [] then Inr Map.empty
      else ebind (sum_items (initial_totals data) data) derive)"






definition clickless_day :: insight where
  "clickless_day = \<lparr>date_start = Some ''2024-01-01'', impressions = Val 100, clicks = Val 0,
     spend = Val 0, conversions = Val 1, conversion_values = Val 0\<rparr>"


section \<open>config/benchmarks.py: the benchmark table and evaluate\<close>

record MetricBenchmark =
  industry_min :: real
  industry_max :: real
  excellent :: real
  alert_threshold :: real
  higher_better :: bool

type_synonym benchmarks = "string \<rightharpoonup> MetricBenchmark"

text \<open>The class attribute \<open>BENCHMARKS\<close> (lines 24-67).\<close>

definition BENCHMARKS :: benchmarks where
  "BENCHMARKS =
     [''ROAS'' \<mapsto> \<lparr>industry_min = 2.5, industry_max = 3.5, excellent = 4.0,
                   alert_threshold = 2.0, higher_better = True\<rparr>,
      ''CPC'' \<mapsto> \<lparr>industry_min = 0.50, industry_max = 1.20, excellent = 0.50,
                  alert_threshold = 2.00, higher_better = False\<rparr>,
      ''CTR'' \<mapsto> \<lparr>industry_min = 0.8, industry_max = 1.5, excellent = 2.0,
                  alert_threshold = 0.5, higher_better = True\<rparr>,
      ''CPA'' \<mapsto> \<lparr>industry_min = 15, industry_max = 35, excellent = 15,
                  alert_threshold = 50, higher_better = False\<rparr>,
      ''Frequency'' \<mapsto> \<lparr>industry_min = 1.5, industry_max = 3.0, excellent = 2.5,
                        alert_threshold = 4.0, higher_better = False\<rparr>,
      ''ConversionRate'' \<mapsto> \<lparr>industry_min = 2.0, industry_max = 4.0, excellent = 5.0,
                             alert_threshold = 1.0, higher_better = True\<rparr>]"

text \<open>
  A caller-supplied override is a dictionary from metric names to values; it is read in
  the order of \<open>custom.items()\<close>, so it is a list of pairs here. A value either fails
  \<open>isinstance(values, dict)\<close> or is a dictionary of keyword arguments. The arguments are
  numbers, a Python \<open>bool\<close> being the int 1 or 0; \<open>higher_better\<close> is only ever tested
  for truth, so the record keeps its truth value.

  \<open>MetricBenchmark(**values)\<close> is the generated initialiser of the dataclass: TypeError
  for a keyword that is no field and for a missing field without default.
\<close>

datatype override = NotADict | Kwargs "(string \<times> real) list"

definition field_names :: "string list" where
  "field_names = [''industry_min'', ''industry_max'', ''excellent'', ''alert_threshold'',
                  ''higher_better'']"

definition MetricBenchmark_init :: "(string \<times> real) list \<Rightarrow> py_error + MetricBenchmark" where
  "MetricBenchmark_init kw =
     (if \<not> list_all (\<lambda>k. k \<in> set field_names) (map fst kw) then Inl TypeError
      else case (map_of kw ''industry_min'', map_of kw ''industry_max'',
                 map_of kw ''excellent'', map_of kw ''alert_threshold'') of
        (Some lo, Some hi, Some ex, Some al) \<Rightarrow>
          Inr \<lparr>industry_min = lo, industry_max = hi, excellent = ex, alert_threshold = al,
               higher_better = (case map_of kw ''higher_better'' of
                                  None \<Rightarrow> True | Some h \<Rightarrow> h \<noteq> 0)\<rparr>
      | _ \<Rightarrow> Inl TypeError)"

text \<open>\<open>_apply_custom_benchmarks\<close> (lines 80-84), the loop over \<open>custom.items()\<close>.\<close>

fun apply_custom_benchmarks ::
  "benchmarks \<Rightarrow> (string \<times> override) list \<Rightarrow> py_error + benchmarks" where
  "apply_custom_benchmarks bm [] = Inr bm"
| "apply_custom_benchmarks bm ((metric, NotADict) # rest) = apply_custom_benchmarks bm rest"
| "apply_custom_benchmarks bm ((metric, Kwargs kw) # rest) =
     (if bm metric \<noteq> None
      then ebind (MetricBenchmark_init kw) (\<lambda>b. apply_custom_benchmarks (bm(metric \<mapsto> b)) rest)
      else apply_custom_benchmarks bm rest)"

text \<open>
  \<open>BenchmarkManager.__init__\<close> (lines 69-78): the table is a copy of \<open>BENCHMARKS\<close>;
  \<open>if custom_benchmarks\<close> is false for \<open>None\<close> and for the empty dictionary.
\<close>

definition BenchmarkManager_init ::
  "(string \<times> override) list option \<Rightarrow> py_error + benchmarks" where
  "BenchmarkManager_init custom_benchmarks =
     (case custom_benchmarks of
        None \<Rightarrow> Inr BENCHMARKS
      | Some custom \<Rightarrow>
          if custom = [] then Inr BENCHMARKS else apply_custom_benchmarks BENCHMARKS custom)"

text \<open>
  \<open>evaluate\<close> (lines 90-149) returns a dictionary. Its values are strings, numbers and
  booleans; \<open>Range lo hi\<close> stands for the text \<open>f"{lo}-{hi}"\<close> of \<open>industry_range\<close>. The
  rating emoji of lines 109-131 are written \<open>check\<close>, \<open>siren\<close> and \<open>caution\<close>, and the
  message of line 103 is written \<open>unknown metric\<close>.
\<close>

datatype pyval = Str string | Num real | Boolean bool | Range real real

type_synonym evaluation = "string \<rightharpoonup> pyval"

definition evaluate :: "benchmarks \<Rightarrow> string \<Rightarrow> real \<Rightarrow> py_error + evaluation" where
  "evaluate bm metric v =
     (case bm metric of
        None \<Rightarrow> Inr [''status'' \<mapsto> Str ''unknown'', ''message'' \<mapsto> Str ''unknown metric'']
      | Some benchmark \<Rightarrow>
          (case (if higher_better benchmark then
                   (if v \<ge> excellent benchmark then (''excellent'', ''check'')
                    else if v \<ge> industry_min benchmark then (''good'', ''check'')
                    else if v < alert_threshold benchmark then (''critical'', ''siren'')
                    else (''warning'', ''caution''))
                 else
                   (if v \<le> excellent benchmark then (''excellent'', ''check'')
                    else if v \<le> industry_max benchmark then (''good'', ''check'')
                    else if v > alert_threshold benchmark then (''critical'', ''siren'')
                    else (''warning'', ''caution'')))
           of (status, rating) \<Rightarrow>
             ebind (if status \<noteq> ''unknown'' then
                      (if higher_better benchmark
                       then ebind (py_div (v - industry_max benchmark) (industry_max benchmark))
                              (\<lambda>q. Inr (q * 100))
                       else ebind (py_div (industry_min benchmark - v) (industry_min benchmark))
                              (\<lambda>q. Inr (q * 100)))
                    else Inr 0) (\<lambda>gap_percent.
               Inr [''status'' \<mapsto> Str status,
                    ''rating'' \<mapsto> Str rating,
                    ''industry_range'' \<mapsto> Range (industry_min benchmark) (industry_max benchmark),
                    ''excellent'' \<mapsto> Num (excellent benchmark),
                    ''gap_percent'' \<mapsto> Num (py_round gap_percent 1),
                    ''is_alert'' \<mapsto> Boolean (status = ''critical'')])))"

text \<open>
  Vocabulary for the statements: the entry \<open>result.get(k)\<close> of what \<open>evaluate\<close> returned,
  the divisor of the gap computation (lines 136 and 138), an override entry that the loop
  acts on, and a metric that some such entry names.
\<close>

definition result_key :: "py_error + evaluation \<Rightarrow> string \<Rightarrow> py_error + pyval option" where
  "result_key r k = ebind r (\<lambda>d. Inr (d k))"

definition gap_denominator :: "MetricBenchmark \<Rightarrow> real" where
  "gap_denominator b = (if higher_better b then industry_max b else industry_min b)"

fun effective :: "benchmarks \<Rightarrow> string \<times> override \<Rightarrow> bool" where
  "effective bm (metric, NotADict) = False"
| "effective bm (metric, Kwargs kw) = (bm metric \<noteq> None)"

definition overridden :: "(string \<times> override) list option \<Rightarrow> string \<Rightarrow> bool" where
  "overridden custom_benchmarks metric =
     (case custom_benchmarks of
        None \<Rightarrow> False
      | Some custom \<Rightarrow> list_ex (\<lambda>entry. fst entry = metric \<and> effective BENCHMARKS entry) custom)"

text \<open>
  Two override dictionaries: one that narrows the CPC range, names a metric the table does
  not have and gives ROAS a value that is no dictionary; and one that starts the CPC range
  at 0.
\<close>

definition mixed_overrides :: "(string \<times> override) list" where
  "mixed_overrides =
     [(''CPC'', Kwargs [(''industry_min'', 0.4), (''industry_max'', 1), (''excellent'', 0.4),
                        (''alert_threshold'', 1.5), (''higher_better'', 0)]),
      (''CPM'', Kwargs [(''industry_min'', 5), (''industry_max'', 9), (''excellent'', 4),
                        (''alert_threshold'', 12), (''higher_better'', 0)]),
      (''ROAS'', NotADict)]"

definition cpc_from_zero :: "(string \<times> override) list" where
  "cpc_from_zero =
     [(''CPC'', Kwargs [(''industry_min'', 0), (''industry_max'', 1.2), (''excellent'', 0.5),
                        (''alert_threshold'', 2), (''higher_better'', 0)])]"


section \<open>analysis/benchmark.py: status change\<close>

text \<open>
  \<open>_get_status_change\<close> (lines 158-182). The body of the \<open>try\<close> is \<open>status_change_body\<close>;
  the handler \<open>except ValueError: return 'stable'\<close> is applied around it. A status is a
  string; the empty string is the falsy value that \<open>if previous\<close> tests for.
\<close>

definition status_order :: "string list" where
  "status_order = [''critical'', ''warning'', ''good'', ''excellent'']"

definition status_change_body :: "string \<Rightarrow> string \<Rightarrow> py_error + string" where
  "status_change_body previous current =
     ebind (if previous \<noteq> [] then index_of status_order previous else Inr 1) (\<lambda>prev_index.
     ebind (if current \<noteq> [] then index_of status_order current else Inr 1) (\<lambda>curr_index.
       if curr_index > prev_index then Inr ''improved''
       else if curr_index < prev_index then Inr ''declined''
       else Inr ''stable''))"

definition get_status_change :: "string \<Rightarrow> string \<Rightarrow> py_error + string" where
  "get_status_change previous current =
     (case status_change_body previous current of
        Inl ValueError \<Rightarrow> Inr ''stable''
      | Inl e \<Rightarrow> Inl e
      | Inr r \<Rightarrow> Inr r)"

text \<open>
  The rule as the specification words it: each status is replaced by its position in the
  ordering, an unrecognized or missing one by the position of \<open>warning\<close> (index 1), and
  the two positions are compared.
\<close>

definition position_or_warning :: "string \<Rightarrow> nat" where
  "position_or_warning s = (case index_of status_order s of Inl e \<Rightarrow> 1 | Inr i \<Rightarrow> i)"

definition status_delta_spec :: "string \<Rightarrow> string \<Rightarrow> string" where
  "status_delta_spec previous current =
     (if position_or_warning current > position_or_warning previous then ''improved''
      else if position_or_warning current < position_or_warning previous then ''declined''
      else ''stable'')"

definition recognised :: "string \<Rightarrow> bool" where
  "recognised s = (s = [] \<or> s \<in> set status_order)"


section \<open>analysis/trend.py\<close>

text \<open>
  \<open>compare_periods\<close> (lines 19-58) fills one entry per metric of a fixed list, from two
  dictionaries of Python numbers. The trend
  symbols of lines 71-75 (arrows up, down and right) are written \<open>up\<close>, \<open>down\<close> and
  \<open>flat\<close>. The fields of an entry carry the prefix \<open>cmp\<close>.
\<close>

record comparison =
  cmp_current :: real
  cmp_previous :: real
  cmp_change_percent :: real
  cmp_trend :: string

definition get_trend :: "real \<Rightarrow> string" where
  "get_trend change =
     (if change > 5 then ''up''
      else if change < -5 then ''down''
      else ''flat'')"

text \<open>Line 47, \<open>((current - previous) / previous) * 100\<close>, operation by operation.\<close>

definition percent_change :: "number \<Rightarrow> number \<Rightarrow> py_error + number" where
  "percent_change cur prev =
     ebind (num_sub cur prev) (\<lambda>d. ebind (num_truediv d prev) (\<lambda>q. num_mul q (PyInt 100)))"

text \<open>
  One pass of the loop of lines 41-56: the percent change, then the entry with its three
  roundings, which holds the value of each rounded number.
\<close>

definition compare_metric :: "numbers \<Rightarrow> numbers \<Rightarrow> string \<Rightarrow> py_error + comparison" where
  "compare_metric current_data previous_data metric =
     (let cur = num0 current_data metric;
          prev = num0 previous_data metric
      in ebind (if value_of prev > 0 then percent_change cur prev
                else if value_of cur = 0 then Inr (PyInt 0) else Inr (PyInt 100)) (\<lambda>change.
         ebind (num_round cur 2) (\<lambda>shown_cur.
         ebind (num_round prev 2) (\<lambda>shown_prev.
         ebind (num_round change 2) (\<lambda>shown_change.
           Inr \<lparr>cmp_current = value_of shown_cur,
                cmp_previous = value_of shown_prev,
                cmp_change_percent = value_of shown_change,
                cmp_trend = get_trend (value_of change)\<rparr>)))))"

definition compared_metrics :: "string list" where
  "compared_metrics = [''spend'', ''clicks'', ''impressions'', ''conversions'',
                       ''roas'', ''cpc'', ''ctr'', ''cpa'', ''conversion_rate'']"

fun compare_loop ::
  "numbers \<Rightarrow> numbers \<Rightarrow> string list \<Rightarrow> (string \<rightharpoonup> comparison)
   \<Rightarrow> py_error + (string \<rightharpoonup> comparison)" where
  "compare_loop current_data previous_data [] comparison = Inr comparison"
| "compare_loop current_data previous_data (metric # rest) comparison =
     ebind (compare_metric current_data previous_data metric) (\<lambda>entry.
       compare_loop current_data previous_data rest (comparison(metric \<mapsto> entry)))"

definition compare_periods :: "numbers \<Rightarrow> numbers \<Rightarrow> py_error + (string \<rightharpoonup> comparison)" where
  "compare_periods current_data previous_data =
     compare_loop current_data previous_data compared_metrics Map.empty"

text \<open>
  Vocabulary for the statements: the percent change as the specification words it for a
  positive previous value, in exact arithmetic; the same three operations each rounded to
  the nearest double; the percent change that a result reports for a metric; and two
  periods, 183 clicks after 160.
\<close>

definition exact_change :: "real \<Rightarrow> real \<Rightarrow> real" where
  "exact_change cur prev = (cur - prev) / prev * 100"

definition double_percent_change :: "real \<Rightarrow> real \<Rightarrow> real" where
  "double_percent_change cur prev = fl (fl (fl (cur - prev) / prev) * 100)"

definition reported_change ::
  "py_error + (string \<rightharpoonup> comparison) \<Rightarrow> string \<Rightarrow> py_error + real option" where
  "reported_change r metric = ebind r (\<lambda>d. Inr (map_option cmp_change_percent (d metric)))"

definition clicks_now :: numbers where
  "clicks_now = [''clicks'' \<mapsto> PyInt 183]"

definition clicks_before :: numbers where
  "clicks_before = [''clicks'' \<mapsto> PyInt 160]"

text \<open>
  \<open>analyze_multi_period\<close> (lines 77-135). \<open>data_by_period\<close> is a dictionary from period
  lengths to aggregates, given as the list of its items (its keys are distinct; a repeated
  key is dropped by \<open>remdups\<close>). \<open>period_value\<close> is the reading
  \<open>data_by_period.get(days, {}).get(metric, 0)\<close> of line 105 and \<open>period_values\<close> the loop
  of lines 104-109. An entry of \<open>values\<close> pairs the period with the rounded value; the
  label of line 107 is the number of days followed by one Chinese character, so the
  number stands for it. Lines 116 and 119 multiply the first value by the float literals
  \<open>1.1\<close> and \<open>0.9\<close>, the second product being computed only when the first comparison
  fails. The trend wording of lines 117-126 is written \<open>rising\<close>, \<open>falling\<close>, \<open>stable\<close> and
  \<open>insufficient data\<close>. The entry \<open>trend_summary\<close> of the result stays the empty
  dictionary and is left out.
\<close>

record metric_trend =
  mt_values :: "(int \<times> number) list"
  mt_trend :: string
  mt_trend_status :: string

record multi_period =
  mp_periods :: "int list"
  mp_metrics_trend :: "string \<rightharpoonup> metric_trend"

definition trend_metrics :: "string list" where
  "trend_metrics = [''roas'', ''cpc'', ''ctr'', ''conversions'', ''spend'']"

definition sorted_periods :: "(int \<times> numbers) list \<Rightarrow> int list" where
  "sorted_periods data_by_period = sort (remdups (map fst data_by_period))"

definition period_value :: "(int \<times> numbers) list \<Rightarrow> int \<Rightarrow> string \<Rightarrow> number" where
  "period_value data_by_period days metric =
     num0 (case map_of data_by_period days of None \<Rightarrow> Map.empty | Some d \<Rightarrow> d) metric"

fun period_values ::
  "(int \<times> numbers) list \<Rightarrow> string \<Rightarrow> int list \<Rightarrow> py_error + (int \<times> number) list" where
  "period_values data_by_period metric [] = Inr []"
| "period_values data_by_period metric (days # rest) =
     ebind (num_round (period_value data_by_period days metric) 2) (\<lambda>v.
     ebind (period_values data_by_period metric rest) (\<lambda>vals. Inr ((days, v) # vals)))"

definition trend_of :: "(int \<times> numbers) list \<Rightarrow> string \<Rightarrow> py_error + metric_trend" where
  "trend_of data_by_period metric =
     ebind (period_values data_by_period metric (sorted_periods data_by_period)) (\<lambda>vals.
       if length vals \<ge> 2 then
         (let first = snd (hd vals); lst = snd (last vals)
          in ebind (num_mul first (float_literal 1.1)) (\<lambda>high.
               if value_of lst > value_of high then
                 Inr \<lparr>mt_values = vals, mt_trend = ''rising'', mt_trend_status = ''positive''\<rparr>
               else
                 ebind (num_mul first (float_literal 0.9)) (\<lambda>low.
                   if value_of lst < value_of low then
                     Inr \<lparr>mt_values = vals, mt_trend = ''falling'',
                          mt_trend_status = ''negative''\<rparr>
                   else
                     Inr \<lparr>mt_values = vals, mt_trend = ''stable'',
                          mt_trend_status = ''neutral''\<rparr>)))
       else Inr \<lparr>mt_values = vals, mt_trend = ''insufficient data'',
                 mt_trend_status = ''unknown''\<rparr>)"

fun trend_loop ::
  "(int \<times> numbers) list \<Rightarrow> string list \<Rightarrow> (string \<rightharpoonup> metric_trend)
   \<Rightarrow> py_error + (string \<rightharpoonup> metric_trend)" where
  "trend_loop data_by_period [] metrics_trend = Inr metrics_trend"
| "trend_loop data_by_period (metric # rest) metrics_trend =
     ebind (trend_of data_by_period metric) (\<lambda>entry.
       trend_loop data_by_period rest (metrics_trend(metric \<mapsto> entry)))"

definition analyze_multi_period :: "(int \<times> numbers) list \<Rightarrow> py_error + multi_period" where
  "analyze_multi_period data_by_period =
     ebind (trend_loop data_by_period trend_metrics Map.empty) (\<lambda>metrics_trend.
       Inr \<lparr>mp_periods = sorted_periods data_by_period, mp_metrics_trend = metrics_trend\<rparr>)"

text \<open>
  Vocabulary for the statements: what \<open>round(value, 2)\<close> returns for a number of ordinary
  size; periods all of whose trend metrics are of ordinary size; the classification with
  the two products rounded to the nearest double, as the code computes it, and with exact
  products, as the specification words it; and the trend that a result reports for a
  metric.
\<close>

definition rounded :: "number \<Rightarrow> number" where
  "rounded a = (case a of PyInt n \<Rightarrow> PyInt n | PyFloat x \<Rightarrow> PyFloat (fl (py_round x 2)))"

definition ordinary_periods :: "(int \<times> numbers) list \<Rightarrow> bool" where
  "ordinary_periods data_by_period =
     list_all (\<lambda>entry. list_all (\<lambda>metric. ordinary (num0 (snd entry) metric)) trend_metrics)
       data_by_period"

definition double_trend :: "real \<Rightarrow> real \<Rightarrow> string" where
  "double_trend first lst =
     (if lst > fl (first * fl 1.1) then ''rising''
      else if lst < fl (first * fl 0.9) then ''falling''
      else ''stable'')"

definition exact_trend :: "real \<Rightarrow> real \<Rightarrow> string" where
  "exact_trend first lst =
     (if lst > first * 1.1 then ''rising''
      else if lst < first * 0.9 then ''falling''
      else ''stable'')"

definition reported_trend :: "py_error + multi_period \<Rightarrow> string \<Rightarrow> py_error + string option" where
  "reported_trend r metric =
     ebind r (\<lambda>d. Inr (map_option mt_trend (mp_metrics_trend d metric)))"

text \<open>
  Three inputs: the periods 1, 3 and 7 with ROAS 10, 10 and 5, entered in the order 7, 1,
  3; a ROAS of 0.8 over one day and 0.72 over seven; and a first value that is an int
  beyond the doubles.
\<close>

definition example_periods :: "(int \<times> numbers) list" where
  "example_periods =
     [(7, [''roas'' \<mapsto> PyFloat 5]), (1, [''roas'' \<mapsto> PyFloat 10]),
      (3, [''roas'' \<mapsto> PyFloat 10])]"

definition slipping_periods :: "(int \<times> numbers) list" where
  "slipping_periods =
     [(1, [''roas'' \<mapsto> float_literal 0.8]), (7, [''roas'' \<mapsto> float_literal 0.72])]"

definition oversized_periods :: "(int \<times> numbers) list" where
  "oversized_periods =
     [(1, [''roas'' \<mapsto> PyInt (10 ^ 309)]), (7, [''roas'' \<mapsto> PyInt 1])]"

text \<open>
  \<open>detect_weekly_pattern\<close> (lines 160-214). A daily record has the text of its
  \<open>date_start\<close> (empty when the key is missing) and its metric values.
  \<open>datetime.strptime(date_str, '%Y-%m-%d').weekday()\<close> belongs to the Python library and
  is the parameter \<open>weekday_of\<close>: \<open>None\<close> when \<open>strptime\<close> raises ValueError, else the day
  of the week, Monday being 0. \<open>split_days\<close> is the loop of lines 178-194 with its two
  lists; \<open>mean\<close> is \<open>statistics.mean\<close> on a list that is not empty. The pattern wording of
  lines 210-212 is written \<open>weekend better\<close>, \<open>weekday better\<close> and
  \<open>no clear difference\<close>.
\<close>

record day_record =
  date_str :: string
  day_values :: metrics

fun split_days ::
  "(string \<Rightarrow> nat option) \<Rightarrow> string \<Rightarrow> day_record list \<Rightarrow> real list \<times> real list
   \<Rightarrow> real list \<times> real list" where
  "split_days weekday_of metric [] (weekday_values, weekend_values) =
     (weekday_values, weekend_values)"
| "split_days weekday_of metric (item # rest) (weekday_values, weekend_values) =
     (if date_str item = [] then
        split_days weekday_of metric rest (weekday_values, weekend_values)
      else case weekday_of (date_str item) of
        None \<Rightarrow> split_days weekday_of metric rest (weekday_values, weekend_values)
      | Some weekday \<Rightarrow>
          (let v = get0 (day_values item) metric
           in if weekday < 5
              then split_days weekday_of metric rest (weekday_values @ [v], weekend_values)
              else split_days weekday_of metric rest (weekday_values, weekend_values @ [v])))"

record weekly_pattern =
  wp_weekday_avg :: real
  wp_weekend_avg :: real
  wp_ratio :: real
  wp_pattern :: string

definition mean :: "real list \<Rightarrow> real" where
  "mean xs = sum_list xs / of_nat (length xs)"

definition detect_weekly_pattern ::
  "(string \<Rightarrow> nat option) \<Rightarrow> day_record list \<Rightarrow> string \<Rightarrow> weekly_pattern" where
  "detect_weekly_pattern weekday_of daily_data metric =
     (case split_days weekday_of metric daily_data ([], []) of
        (weekday_values, weekend_values) \<Rightarrow>
          (let weekday_avg = (if weekday_values \<noteq> [] then mean weekday_values else 0);
               weekend_avg = (if weekend_values \<noteq> [] then mean weekend_values else 0);
               ratio = (if weekend_avg > 0 then weekday_avg / weekend_avg else 0)
           in \<lparr>wp_weekday_avg = py_round weekday_avg 2,
               wp_weekend_avg = py_round weekend_avg 2,
               wp_ratio = py_round ratio 2,
               wp_pattern = (if ratio < 0.9 then ''weekend better''
                             else if ratio > 1.1 then ''weekday better''
                             else ''no clear difference'')\<rparr>))"

text \<open>
  A record that the loop either skips (no date, or a date that does not parse) or files
  under the weekdays; the first week of 2024 as a calendar (its first of January is a
  Monday); and four daily records: two working days, one without a date, one whose date
  does not parse.
\<close>

definition usable_on_weekday :: "(string \<Rightarrow> nat option) \<Rightarrow> day_record \<Rightarrow> bool" where
  "usable_on_weekday weekday_of item =
     (date_str item = [] \<or>
      (case weekday_of (date_str item) of None \<Rightarrow> True | Some weekday \<Rightarrow> weekday < 5))"

definition first_week_2024 :: "string \<Rightarrow> nat option" where
  "first_week_2024 =
     [''2024-01-01'' \<mapsto> 0, ''2024-01-02'' \<mapsto> 1, ''2024-01-03'' \<mapsto> 2, ''2024-01-04'' \<mapsto> 3,
      ''2024-01-05'' \<mapsto> 4, ''2024-01-06'' \<mapsto> 5, ''2024-01-07'' \<mapsto> 6]"

definition working_days :: "day_record list" where
  "working_days =
     [\<lparr>date_str = ''2024-01-01'', day_values = [''roas'' \<mapsto> 4]\<rparr>,
      \<lparr>date_str = [], day_values = [''roas'' \<mapsto> 9]\<rparr>,
      \<lparr>date_str = ''2024-01-02'', day_values = [''roas'' \<mapsto> 2]\<rparr>,
      \<lparr>date_str = ''yesterday'', day_values = [''roas'' \<mapsto> 9]\<rparr>]"


section \<open>analysis/anomaly.py\<close>

text \<open>
  The four thresholds of lines 59-64, and an anomaly (lines 16-31) without its timestamp,
  which is the wall clock at construction. The fields of an anomaly carry the prefix
  \<open>an\<close>. A threshold is a number or, for the rule on conversions, a wording.

  The suggestions and wordings are Chinese text in the source (lines 102, 114, 122-127,
  139, 165, 174, 177) and are written in English here. Where an f-string prints a number,
  the printing belongs to the Python library and is a parameter: \<open>show_float\<close> for
  \<open>{x}\<close> and \<open>show_money\<close> for \<open>{x:.2f}\<close>.
\<close>

record thresholds =
  roas_min :: real
  cpc_max :: real
  no_conversion_spend :: real
  frequency_max :: real

record text_format =
  show_float :: "real \<Rightarrow> string"
  show_money :: "real \<Rightarrow> string"

datatype threshold_text = Limit real | Wording string

record Anomaly =
  an_metric :: string
  an_value :: real
  an_threshold :: threshold_text
  an_campaign :: string
  an_severity :: string
  an_suggestion :: string

text \<open>\<open>_detect_account_anomalies\<close> (lines 89-142): four rules, each appending at most once.\<close>

definition detect_account_anomalies ::
  "text_format \<Rightarrow> thresholds \<Rightarrow> metrics \<Rightarrow> Anomaly list" where
  "detect_account_anomalies fmt th data =
     (let roas = get0 data ''roas'' in
        if roas < roas_min th then
          [\<lparr>an_metric = ''ROAS'', an_value = roas, an_threshold = Limit (roas_min th),
            an_campaign = ''Account'', an_severity = ''critical'',
            an_suggestion = ''ROAS below the alert threshold: check objective and audience''\<rparr>]
        else [])
     @ (let cpc = get0 data ''cpc'' in
        if cpc > cpc_max th then
          [\<lparr>an_metric = ''CPC'', an_value = cpc, an_threshold = Limit (cpc_max th),
            an_campaign = ''Account'', an_severity = ''warning'',
            an_suggestion = ''CPC near the alert threshold: check audience overlap and bids''\<rparr>]
        else [])
     @ (let spent = get0 data ''spend''; converted = get0 data ''conversions'' in
        if converted = 0 \<and> spent > no_conversion_spend th then
          [\<lparr>an_metric = ''conversions'', an_value = 0,
            an_threshold = Wording (''spend>$'' @ show_float fmt (no_conversion_spend th)
                                    @ '' but no conversions''),
            an_campaign = ''Account'', an_severity = ''critical'',
            an_suggestion = ''spent $'' @ show_money fmt spent
                             @ '' without conversions: check tracking and landing page''\<rparr>]
        else [])
     @ (let frequency = get0 data ''frequency'' in
        if frequency > frequency_max th then
          [\<lparr>an_metric = ''Frequency'', an_value = frequency,
            an_threshold = Limit (frequency_max th),
            an_campaign = ''Account'', an_severity = ''warning'',
            an_suggestion =
              ''frequency too high, ad fatigue likely: widen audience or change creatives''\<rparr>]
        else [])"

text \<open>
  \<open>_aggregate_by_campaign\<close> (lines 182-205). A campaign record is an insights record with
  its \<open>campaign_name\<close> (\<open>None\<close> when the key is missing, read as \<open>Unknown\<close>). The
  dictionary of aggregates keeps the order in which the campaigns were first seen;
  \<open>upsert\<close> is the assignment \<open>d[k] = v\<close> on it.
\<close>

record campaign_insight = insight +
  campaign_name :: "string option"

record campaign_totals =
  c_impressions :: int
  c_clicks :: int
  c_spend :: real
  c_conversions :: int
  c_conversion_values :: real

fun upsert :: "('k \<times> 'v) list \<Rightarrow> 'k \<Rightarrow> 'v \<Rightarrow> ('k \<times> 'v) list" where
  "upsert [] k v = [(k, v)]"
| "upsert ((k', v') # rest) k v =
     (if k' = k then (k, v) # rest else (k', v') # upsert rest k v)"

definition add_to_campaign ::
  "campaign_totals \<Rightarrow> campaign_insight \<Rightarrow> py_error + campaign_totals" where
  "add_to_campaign agg item =
     ebind (conv (impressions item)) (\<lambda>i.
     ebind (conv (clicks item)) (\<lambda>c.
     ebind (conv (spend item)) (\<lambda>s.
     ebind (conv (conversions item)) (\<lambda>n.
     ebind (conv (conversion_values item)) (\<lambda>v.
       Inr \<lparr>c_impressions = c_impressions agg + i,
            c_clicks = c_clicks agg + c,
            c_spend = c_spend agg + s,
            c_conversions = c_conversions agg + n,
            c_conversion_values = c_conversion_values agg + v\<rparr>)))))"

fun aggregate_by_campaign ::
  "(string \<times> campaign_totals) list \<Rightarrow> campaign_insight list
   \<Rightarrow> py_error + (string \<times> campaign_totals) list" where
  "aggregate_by_campaign aggregates [] = Inr aggregates"
| "aggregate_by_campaign aggregates (item # rest) =
     (let name = (case campaign_name item of None \<Rightarrow> ''Unknown'' | Some n \<Rightarrow> n);
          agg = (case map_of aggregates name of
                   None \<Rightarrow> \<lparr>c_impressions = 0, c_clicks = 0, c_spend = 0,
                            c_conversions = 0, c_conversion_values = 0\<rparr>
                 | Some a \<Rightarrow> a)
      in ebind (add_to_campaign agg item) (\<lambda>agg'.
           aggregate_by_campaign (upsert aggregates name agg') rest))"

text \<open>\<open>_detect_campaign_anomalies\<close> (lines 144-180): the two rules for one campaign.\<close>

definition campaign_anomalies ::
  "text_format \<Rightarrow> thresholds \<Rightarrow> string \<times> campaign_totals \<Rightarrow> Anomaly list" where
  "campaign_anomalies fmt th entry =
     (case entry of (name, data) \<Rightarrow>
        (let spent = c_spend data;
             roas = (if spent > 0 then c_conversion_values data / spent else 0)
         in (if roas < roas_min th then
               [\<lparr>an_metric = ''ROAS'', an_value = roas, an_threshold = Limit (roas_min th),
                 an_campaign = name, an_severity = ''warning'',
                 an_suggestion =
                   name @ '' ROAS is low: check audience and creatives of this campaign''\<rparr>]
             else [])
            @ (if c_conversions data = 0 \<and> spent > no_conversion_spend th * 0.5 then
                 [\<lparr>an_metric = ''conversions'', an_value = 0,
                   an_threshold =
                     Wording (''spend>$'' @ show_float fmt (no_conversion_spend th * 0.5)
                              @ '' but no conversions''),
                   an_campaign = name, an_severity = ''warning'',
                   an_suggestion = name @ '' spent $'' @ show_money fmt spent
                                    @ '' without conversions''\<rparr>]
               else [])))"

definition detect_campaign_anomalies ::
  "text_format \<Rightarrow> thresholds \<Rightarrow> campaign_insight list \<Rightarrow> py_error + Anomaly list" where
  "detect_campaign_anomalies fmt th campaign_data =
     ebind (aggregate_by_campaign [] campaign_data) (\<lambda>campaign_aggregates.
       Inr (concat (map (campaign_anomalies fmt th) campaign_aggregates)))"

text \<open>
  \<open>detect_all\<close> (lines 66-87): the account rules, then the campaign rules when campaign
  data is given and not empty.
\<close>

definition detect_all ::
  "text_format \<Rightarrow> thresholds \<Rightarrow> metrics \<Rightarrow> campaign_insight list option
   \<Rightarrow> py_error + Anomaly list" where
  "detect_all fmt th data campaign_data =
     (let anomalies = detect_account_anomalies fmt th data
      in case campaign_data of
           None \<Rightarrow> Inr anomalies
         | Some rows \<Rightarrow>
             if rows = [] then Inr anomalies
             else ebind (detect_campaign_anomalies fmt th rows)
                    (\<lambda>more. Inr (anomalies @ more)))"

text \<open>
  Vocabulary for the statements: scope, metric and severity of each anomaly of a result,
  in order; the thresholds that config/settings.py (lines 39-42) takes when the
  environment sets none; a number printing that writes a question mark for every number,
  for the examples, in which no printed number is looked at; and two account aggregates, the one of the specification's
  example and one that breaks all four rules.
\<close>

definition fired :: "py_error + Anomaly list \<Rightarrow> py_error + (string \<times> string \<times> string) list" where
  "fired r = ebind r (\<lambda>anomalies.
     Inr (map (\<lambda>a. (an_campaign a, an_metric a, an_severity a)) anomalies))"

definition default_thresholds :: thresholds where
  "default_thresholds = \<lparr>roas_min = 2.0, cpc_max = 2.0, no_conversion_spend = 100.0,
                          frequency_max = 4.0\<rparr>"

definition blank_format :: text_format where
  "blank_format = \<lparr>show_float = (\<lambda>x. ''?''), show_money = (\<lambda>x. ''?'')\<rparr>"

definition spending_without_return :: metrics where
  "spending_without_return = [''roas'' \<mapsto> 1.0, ''spend'' \<mapsto> 150, ''conversions'' \<mapsto> 0]"

definition all_rules_broken :: metrics where
  "all_rules_broken = [''roas'' \<mapsto> 1.0, ''cpc'' \<mapsto> 3, ''spend'' \<mapsto> 150,
                       ''conversions'' \<mapsto> 0, ''frequency'' \<mapsto> 5]"


section \<open>report/generator.py: the insights\<close>

text \<open>
  \<open>list(dict.fromkeys(insights))\<close> (line 176): the keys are entered in order, and a key
  that is already there keeps its place.
\<close>

definition fromkeys :: "'a list \<Rightarrow> 'a list" where
  "fromkeys xs = foldl (\<lambda>seen x. if x \<in> set seen then seen else seen @ [x]) [] xs"

text \<open>
  De-duplication preserving first occurrence, as the specification words it: the first
  element stays and its later copies go.
\<close>

fun dedup_first :: "'a list \<Rightarrow> 'a list" where
  "dedup_first [] = []"
| "dedup_first (x # xs) = x # dedup_first (filter (\<lambda>y. y \<noteq> x) xs)"

text \<open>
  \<open>_generate_insights\<close> (lines 141-177). Its \<open>benchmark_evaluation\<close> is what
  \<open>analyze_all_metrics\<close> builds (analysis/benchmark.py lines 49-57): per benchmark name,
  in order, a report with the seven entries named there. \<open>raw_insights\<close> is the list
  \<open>insights\<close> as it stands before line 176. The five texts (lines 154, 156, 163, 168, 173)
  begin with five different emoji in the source and with five different bracketed
  words here.
\<close>

record metric_report =
  rep_value :: real
  rep_benchmark_range :: "real \<times> real"
  rep_excellent :: real
  rep_status :: string
  rep_rating :: string
  rep_gap_percent :: real
  rep_is_alert :: bool

definition raw_insights ::
  "(string \<rightharpoonup> comparison) \<Rightarrow> multi_period \<Rightarrow> (string \<times> metric_report) list \<Rightarrow> Anomaly list
   \<Rightarrow> string list" where
  "raw_insights comparison trend_analysis benchmark_evaluation anomalies =
     (let roas_status = map_option mt_trend_status (mp_metrics_trend trend_analysis ''roas'')
      in if roas_status = Some ''positive''
         then [''[ok] ROAS keeps rising: the current optimisation works, keep it'']
         else if roas_status = Some ''negative''
         then [''[warn] ROAS keeps falling: check audience targeting and creatives'']
         else [])
     @ (let spend_change = (case comparison ''spend'' of
                              None \<Rightarrow> 0 | Some e \<Rightarrow> cmp_change_percent e);
            conv_change = (case comparison ''conversions'' of
                             None \<Rightarrow> 0 | Some e \<Rightarrow> cmp_change_percent e)
        in if spend_change > 20 \<and> conv_change < 10
           then [''[down] spend grew but conversions did not follow: tune the bidding'']
           else [])
     @ concat (map (\<lambda>(metric, result).
                 if rep_is_alert result
                 then [''[alert] '' @ metric
                       @ '' is below the industry standard and needs attention'']
                 else []) benchmark_evaluation)
     @ concat (map (\<lambda>anomaly.
                 if an_severity anomaly = ''critical'' \<and> an_suggestion anomaly \<noteq> []
                 then [''[tip] '' @ an_suggestion anomaly]
                 else []) anomalies)"

definition generate_insights ::
  "(string \<rightharpoonup> comparison) \<Rightarrow> multi_period \<Rightarrow> (string \<times> metric_report) list \<Rightarrow> Anomaly list
   \<Rightarrow> string list" where
  "generate_insights comparison trend_analysis benchmark_evaluation anomalies =
     take 5 (fromkeys (raw_insights comparison trend_analysis benchmark_evaluation anomalies))"

text \<open>
  Inputs for the examples: no trend and no comparison; two critical anomalies of different
  metrics with the same suggestion; and six benchmark reports that all raise an alert.
\<close>

definition no_trend :: multi_period where
  "no_trend = \<lparr>mp_periods = [], mp_metrics_trend = Map.empty\<rparr>"

definition twin_anomalies :: "Anomaly list" where
  "twin_anomalies =
     [\<lparr>an_metric = ''ROAS'', an_value = 1, an_threshold = Limit 2, an_campaign = ''Account'',
       an_severity = ''critical'', an_suggestion = ''check the tracking''\<rparr>,
      \<lparr>an_metric = ''conversions'', an_value = 0, an_threshold = Limit 100,
       an_campaign = ''Account'', an_severity = ''critical'',
       an_suggestion = ''check the tracking''\<rparr>]"

definition alert_report :: metric_report where
  "alert_report = \<lparr>rep_value = 0, rep_benchmark_range = (1, 2), rep_excellent = 3,
     rep_status = ''critical'', rep_rating = ''siren'', rep_gap_percent = -100,
     rep_is_alert = True\<rparr>"

definition six_alerts :: "(string \<times> metric_report) list" where
  "six_alerts = map (\<lambda>name. (name, alert_report))
     [''ROAS'', ''CPC'', ''CTR'', ''CPA'', ''Frequency'', ''ConversionRate'']"


section \<open>Properties of the floating-point model\<close>

text \<open>
  \<open>fl\<close> rounds with a relative error of at most \<open>2 ^ - 53\<close> (and an absolute error of at
  most \<open>2 ^ - 1075\<close> in the subnormal range), keeps every int below \<open>2 ^ 53\<close>, and is
  determined at a given real by a certificate: the binade of the real and the integer
  nearest to it in units of the last place.
\<close>

lemma pow2_powr: "pow2 e = 2 powr (of_int e)"
proof (cases "0 \<le> e")
  case True
  then show ?thesis by (simp add: pow2_def powr_realpow [symmetric])
next
  case False
  then have "pow2 e = 1 / 2 ^ nat (- e)" by (simp add: pow2_def)
  also have "\<dots> = 1 / 2 powr (of_int (- e))"
    using False by (simp add: powr_realpow [symmetric])
  also have "\<dots> = 2 powr (of_int e)" by (simp add: powr_minus divide_inverse)
  finally show ?thesis .
qed

lemma pow2_pos: "0 < pow2 e"
  by (simp add: pow2_powr)

lemma pow2_mono: "e \<le> e' \<Longrightarrow> pow2 e \<le> pow2 e'"
  by (simp add: pow2_powr)

lemma pow2_add: "pow2 (a + b) = pow2 a * pow2 b"
  by (simp add: pow2_powr powr_add)

lemma pow2_nat: "pow2 (int n) = 2 ^ n"
  by (simp add: pow2_def)

lemma round_half_even_error: "\<bar>of_int (round_half_even y) - y\<bar> \<le> 1 / 2"
  unfolding round_half_even_def Let_def by (auto; linarith)

lemma round_half_even_int: "round_half_even (of_int k) = k"
  by (simp add: round_half_even_def)

lemma binade_lower: assumes "x \<noteq> 0" shows "pow2 (binade x) \<le> \<bar>x\<bar>"
proof (cases "1 \<le> \<bar>x\<bar>")
  case True
  let ?m = "\<lfloor>\<bar>x\<bar>\<rfloor>"
  from True have m: "0 < ?m" by linarith
  from bitlen_bounds [OF m] have "2 ^ nat (bitlen ?m - 1) \<le> ?m" by simp
  then have "(2::real) ^ nat (bitlen ?m - 1) \<le> of_int ?m"
    by (metis of_int_le_iff of_int_numeral of_int_power)
  also have "\<dots> \<le> \<bar>x\<bar>" by linarith
  finally have "2 ^ nat (bitlen ?m - 1) \<le> \<bar>x\<bar>" .
  moreover from m have "1 \<le> bitlen ?m" by (auto simp: bitlen_alt_def)
  ultimately show ?thesis using True by (simp add: binade_def pow2_def)
next
  case False
  let ?n = "\<lceil>1 / \<bar>x\<bar>\<rceil> - 1"
  from False assms have a: "0 < \<bar>x\<bar>" "\<bar>x\<bar> < 1" by auto
  then have "1 < 1 / \<bar>x\<bar>" by simp
  then have n: "0 < ?n" by linarith
  from bitlen_bounds [OF n] have "?n < 2 ^ nat (bitlen ?n)" by simp
  then have "?n + 1 \<le> 2 ^ nat (bitlen ?n)" by linarith
  then have "of_int (?n + 1) \<le> (2::real) ^ nat (bitlen ?n)"
    by (metis of_int_le_iff of_int_numeral of_int_power)
  moreover have "1 / \<bar>x\<bar> \<le> of_int (?n + 1)" by simp
  ultimately have "1 / \<bar>x\<bar> \<le> 2 ^ nat (bitlen ?n)" by linarith
  with a have "1 / 2 ^ nat (bitlen ?n) \<le> \<bar>x\<bar>"
    by (simp add: field_simps)
  moreover have "pow2 (- bitlen ?n) = 1 / 2 ^ nat (bitlen ?n)"
    using bitlen_nonneg [of ?n] by (cases "bitlen ?n = 0") (simp_all add: pow2_def)
  ultimately show ?thesis using False by (simp add: binade_def)
qed

lemma fl_error: "\<bar>fl x - x\<bar> \<le> \<bar>x\<bar> / 2 ^ 53 + 1 / 2 ^ 1075"
proof (cases "x = 0")
  case True
  then show ?thesis by (simp add: fl_def)
next
  case False
  let ?e = "max (binade x - 52) (- 1074)"
  let ?u = "pow2 ?e"
  have u: "0 < ?u" by (rule pow2_pos)
  have fx: "fl x = of_int (round_half_even (x / ?u)) * ?u"
    using False by (simp add: fl_def Let_def)
  have "fl x - x = (of_int (round_half_even (x / ?u)) - x / ?u) * ?u"
    using u by (simp add: fx field_simps)
  then have "\<bar>fl x - x\<bar> = \<bar>of_int (round_half_even (x / ?u)) - x / ?u\<bar> * ?u"
    using u by (simp add: abs_mult)
  also have "\<dots> \<le> (1 / 2) * ?u"
    using round_half_even_error [of "x / ?u"] u by (intro mult_right_mono) auto
  finally have h: "\<bar>fl x - x\<bar> \<le> ?u / 2" by simp
  have "?u \<le> pow2 (binade x - 52) + pow2 (- 1074)"
    using pow2_pos [of "binade x - 52"] pow2_pos [of "- 1074"] by (auto simp: max_def)
  also have "pow2 (binade x - 52) = pow2 (binade x) * pow2 (- 52)"
    using pow2_add [of "binade x" "- 52"] by simp
  also have "\<dots> \<le> \<bar>x\<bar> * pow2 (- 52)"
    using binade_lower [OF False] pow2_pos [of "- 52"] by (intro mult_right_mono) auto
  finally have "?u \<le> \<bar>x\<bar> * pow2 (- 52) + pow2 (- 1074)" by simp
  then have "?u / 2 \<le> \<bar>x\<bar> / 2 ^ 53 + 1 / 2 ^ 1075" by (simp add: pow2_def)
  with h show ?thesis by linarith
qed

lemma fl_zero: "fl 0 = 0"
  by (simp add: fl_def)

lemma fl_bound: "\<bar>fl x\<bar> \<le> 2 * \<bar>x\<bar> + 1"
proof -
  have "\<bar>x\<bar> / 2 ^ 53 \<le> \<bar>x\<bar>" by (simp add: field_simps)
  moreover have "(1::real) / 2 ^ 1075 \<le> 1" by simp
  ultimately show ?thesis using fl_error [of x] by linarith
qed

lemma fl_lower: assumes "1 / 2 ^ 1000 \<le> \<bar>x\<bar>" shows "\<bar>x\<bar> / 2 \<le> \<bar>fl x\<bar>"
proof -
  define a where "a = \<bar>x\<bar> / 2 ^ 53"
  define c where "c = (1::real) / 2 ^ 1075"
  define m where "m = (1::real) / 2 ^ 1000"
  have 1: "a \<le> \<bar>x\<bar> / 4" by (simp add: a_def field_simps)
  have 2: "c \<le> m / 4" by (simp add: c_def m_def)
  have 3: "\<bar>fl x - x\<bar> \<le> a + c" using fl_error [of x] by (simp add: a_def c_def)
  have 4: "m \<le> \<bar>x\<bar>" using assms by (simp add: m_def)
  from 1 2 3 4 show ?thesis by linarith
qed

lemma double_of_moderate: "\<bar>x\<bar> \<le> 2 ^ 1022 \<Longrightarrow> double_of x = Some (fl x)"
proof -
  assume "\<bar>x\<bar> \<le> 2 ^ 1022"
  with fl_bound [of x] have "\<bar>fl x\<bar> \<le> 2 * 2 ^ 1022 + 1" by linarith
  also have "\<dots> < (2::real) ^ 1024" by simp
  finally show ?thesis by (simp add: double_of_def)
qed

lemma binade_nonneg: "1 \<le> \<bar>x\<bar> \<Longrightarrow> 0 \<le> binade x"
proof -
  assume a: "1 \<le> \<bar>x\<bar>"
  then have "0 < \<lfloor>\<bar>x\<bar>\<rfloor>" by linarith
  then have "1 \<le> bitlen \<lfloor>\<bar>x\<bar>\<rfloor>" by (auto simp: bitlen_alt_def)
  with a show ?thesis by (simp add: binade_def)
qed

lemma fl_int: assumes "\<bar>n\<bar> < 2 ^ 53" shows "fl (of_int n) = of_int n"
proof (cases "n = 0")
  case True
  then show ?thesis by (simp add: fl_def)
next
  case False
  let ?x = "of_int n :: real"
  let ?b = "binade ?x"
  from False have x: "?x \<noteq> 0" "1 \<le> \<bar>?x\<bar>" by (simp_all flip: of_int_abs)
  have "\<bar>?x\<bar> < 2 ^ 53" using assms by (metis of_int_abs of_int_less_iff of_int_numeral of_int_power)
  with binade_lower [OF x(1)] have "pow2 ?b < pow2 53" by (simp add: pow2_def)
  then have "?b < 53" using pow2_mono [of 53 ?b] by (cases "?b < 53") auto
  moreover have "0 \<le> ?b" using binade_nonneg [OF x(2)] .
  ultimately have b: "0 \<le> ?b" "?b \<le> 52" by simp_all
  define k where "k = nat (52 - ?b)"
  from b have k: "?b - 52 = - int k" "k \<le> 52" by (simp_all add: k_def)
  then have e: "max (?b - 52) (- 1074) = - int k" by simp
  have u: "pow2 (- int k) = 1 / 2 ^ k" by (cases "k = 0") (simp_all add: pow2_def)
  have "?x / pow2 (- int k) = of_int (n * 2 ^ k)" by (simp add: u)
  then have "round_half_even (?x / pow2 (- int k)) = n * 2 ^ k"
    by (simp only: round_half_even_int)
  then show ?thesis using x(1) by (simp add: fl_def Let_def e u)
qed

lemma binade_upper: assumes "x \<noteq> 0" shows "\<bar>x\<bar> < pow2 (binade x + 1)"
proof (cases "1 \<le> \<bar>x\<bar>")
  case True
  let ?m = "\<lfloor>\<bar>x\<bar>\<rfloor>"
  from True have m: "0 < ?m" by linarith
  from bitlen_bounds [OF m] have "?m < 2 ^ nat (bitlen ?m)" by simp
  then have "?m + 1 \<le> 2 ^ nat (bitlen ?m)" by linarith
  then have "of_int (?m + 1) \<le> (2::real) ^ nat (bitlen ?m)"
    by (metis of_int_le_iff of_int_numeral of_int_power)
  moreover have "\<bar>x\<bar> < of_int (?m + 1)" by linarith
  ultimately have "\<bar>x\<bar> < 2 ^ nat (bitlen ?m)" by linarith
  moreover have "0 \<le> bitlen ?m" by (rule bitlen_nonneg)
  ultimately show ?thesis using True by (simp add: binade_def pow2_def)
next
  case False
  let ?n = "\<lceil>1 / \<bar>x\<bar>\<rceil> - 1"
  from False assms have a: "0 < \<bar>x\<bar>" "\<bar>x\<bar> < 1" by auto
  then have "1 < 1 / \<bar>x\<bar>" by simp
  then have n: "0 < ?n" by linarith
  then have k: "1 \<le> bitlen ?n" by (auto simp: bitlen_alt_def)
  from bitlen_bounds [OF n] have "2 ^ nat (bitlen ?n - 1) \<le> ?n" by simp
  then have "(2::real) ^ nat (bitlen ?n - 1) \<le> of_int ?n"
    by (metis of_int_le_iff of_int_numeral of_int_power)
  moreover have "of_int ?n < 1 / \<bar>x\<bar>" by linarith
  ultimately have "2 ^ nat (bitlen ?n - 1) < 1 / \<bar>x\<bar>" by linarith
  with a have "\<bar>x\<bar> < 1 / 2 ^ nat (bitlen ?n - 1)" by (simp add: field_simps)
  moreover have "pow2 (- bitlen ?n + 1) = 1 / 2 ^ nat (bitlen ?n - 1)"
    using k by (cases "bitlen ?n = 1") (simp_all add: pow2_def)
  ultimately show ?thesis using False by (simp add: binade_def)
qed

lemma binade_unique:
  assumes "pow2 b \<le> \<bar>x\<bar>" and "\<bar>x\<bar> < pow2 (b + 1)"
  shows "binade x = b"
proof -
  from assms(1) pow2_pos [of b] have x: "x \<noteq> 0" by auto
  from binade_lower [OF x] assms(2) have "pow2 (binade x) < pow2 (b + 1)" by linarith
  then have 1: "binade x < b + 1" using pow2_mono [of "b + 1" "binade x"] by (cases "binade x < b + 1") auto
  from binade_upper [OF x] assms(1) have "pow2 b < pow2 (binade x + 1)" by linarith
  then have 2: "b < binade x + 1" using pow2_mono [of "binade x + 1" b] by (cases "b < binade x + 1") auto
  from 1 2 show ?thesis by simp
qed

lemma round_half_even_near:
  assumes "\<bar>of_int m - y\<bar> < 1 / 2" shows "round_half_even y = m"
proof -
  define f where "f = \<lfloor>y\<rfloor>"
  have f: "of_int f \<le> y" "y < of_int f + 1" unfolding f_def by linarith+
  consider "y - of_int f < 1 / 2" | "1 / 2 < y - of_int f" | "y - of_int f = 1 / 2" by linarith
  then show ?thesis
  proof cases
    case 1
    with assms f have "of_int f - 1 < (of_int m :: real)" "(of_int m :: real) < of_int f + 1"
      by linarith+
    then have "f - 1 < m" "m < f + 1" by linarith+
    then have "m = f" by simp
    with 1 show ?thesis by (simp add: round_half_even_def Let_def f_def)
  next
    case 2
    with assms f have "of_int f < (of_int m :: real)" "(of_int m :: real) < of_int f + 2"
      by linarith+
    then have "f < m" "m < f + 2" by linarith+
    then have "m = f + 1" by simp
    with 2 show ?thesis by (simp add: round_half_even_def Let_def f_def)
  next
    case 3
    with assms have "of_int f < (of_int m :: real)" "(of_int m :: real) < of_int f + 1"
      by linarith+
    then have "f < m" "m < f + 1" by linarith+
    then show ?thesis by simp
  qed
qed

lemma round_half_even_tie:
  assumes "even m" and "\<bar>of_int m - y\<bar> = 1 / 2" shows "round_half_even y = m"
proof -
  from assms(2) consider "y = of_int m + 1 / 2" | "y = of_int (m - 1) + 1 / 2" by (auto simp: abs_if split: if_splits)
  then show ?thesis
  proof cases
    case 1
    have "\<lfloor>y\<rfloor> = m" unfolding 1 by linarith
    with 1 assms(1) show ?thesis by (simp add: round_half_even_def Let_def)
  next
    case 2
    have "\<lfloor>y\<rfloor> = m - 1" unfolding 2 by linarith
    with 2 assms(1) show ?thesis by (simp add: round_half_even_def Let_def)
  qed
qed

lemma fl_certificate:
  assumes "pow2 b \<le> \<bar>x\<bar>" and "\<bar>x\<bar> < pow2 (b + 1)"
    and "e = max (b - 52) (- 1074)"
    and "\<bar>of_int m - x / pow2 e\<bar> < 1 / 2"
  shows "fl x = of_int m * pow2 e"
proof -
  from assms(1) pow2_pos [of b] have x: "x \<noteq> 0" by auto
  from binade_unique [OF assms(1,2)] assms(3) have "max (binade x - 52) (- 1074) = e" by simp
  with x round_half_even_near [OF assms(4)] show ?thesis by (simp add: fl_def Let_def)
qed

lemma fl_certificate_tie:
  assumes "pow2 b \<le> \<bar>x\<bar>" and "\<bar>x\<bar> < pow2 (b + 1)"
    and "e = max (b - 52) (- 1074)"
    and "even m" and "\<bar>of_int m - x / pow2 e\<bar> = 1 / 2"
  shows "fl x = of_int m * pow2 e"
proof -
  from assms(1) pow2_pos [of b] have x: "x \<noteq> 0" by auto
  from binade_unique [OF assms(1,2)] assms(3) have "max (binade x - 52) (- 1074) = e" by simp
  with x round_half_even_tie [OF assms(4,5)] show ?thesis by (simp add: fl_def Let_def)
qed

lemma of_int_abs_less: "\<bar>n\<bar> < 2 ^ k \<Longrightarrow> \<bar>of_int n :: real\<bar> < 2 ^ k"
  by (metis of_int_abs of_int_less_iff of_int_numeral of_int_power)

lemma to_float_int: "\<bar>n\<bar> < 2 ^ 53 \<Longrightarrow> to_float (PyInt n) = Inr (of_int n)"
proof -
  assume a: "\<bar>n\<bar> < 2 ^ 53"
  then have "\<bar>of_int n :: real\<bar> < 2 ^ 53" by (rule of_int_abs_less)
  also have "\<dots> \<le> (2::real) ^ 1022" by simp
  finally have "double_of (of_int n) = Some (fl (of_int n))" by (simp add: double_of_moderate)
  with a show ?thesis by (simp add: fl_int to_float_def)
qed

lemma to_float_float: "to_float (PyFloat x) = Inr x"
  by (simp add: to_float_def)

lemma div_bound:
  assumes "\<bar>D\<bar> \<le> A" and "m \<le> v" and "0 < m"
  shows "\<bar>D / v\<bar> \<le> A / (m::real)"
proof -
  from assms(2,3) have v: "0 < v" by linarith
  have "\<bar>D\<bar> / v \<le> A / m" using assms by (intro frac_le) auto
  with v show ?thesis by simp
qed

lemma float_result_moderate: "\<bar>x\<bar> \<le> 2 ^ 1022 \<Longrightarrow> float_result x = Inr (PyFloat (fl x))"
  by (simp add: float_result_def double_of_moderate)

lemma ordinary_value: "ordinary a \<Longrightarrow> \<bar>value_of a\<bar> \<le> 10 ^ 280"
proof (cases a)
  case (PyInt n)
  assume "ordinary a"
  with PyInt have "\<bar>of_int n :: real\<bar> < 2 ^ 52" by (simp add: of_int_abs_less)
  also have "\<dots> \<le> (10::real) ^ 280" by simp
  finally show ?thesis using PyInt by simp
next
  case (PyFloat x)
  assume "ordinary a"
  with PyFloat show ?thesis by simp
qed

lemma ordinary_to_float: "ordinary a \<Longrightarrow> to_float a = Inr (value_of a)"
proof (cases a)
  case (PyInt n)
  assume "ordinary a"
  with PyInt have "\<bar>n\<bar> < 2 ^ 53" by simp
  from to_float_int [OF this] PyInt show ?thesis by simp
next
  case (PyFloat x)
  then show ?thesis by (simp add: to_float_float)
qed

lemma powers_in_range: "(10::real) ^ 280 + 10 ^ 280 \<le> 2 ^ 1022" "(10::real) ^ 300 \<le> 2 ^ 1022"
  by simp_all

lemma num_sub_ordinary:
  assumes "ordinary a" and "ordinary b"
  shows "\<exists>r. num_sub a b = Inr r \<and> value_of r = fl (value_of a - value_of b)
           \<and> (\<forall>k. r = PyInt k \<longrightarrow> \<bar>k\<bar> < 2 ^ 53)"
proof -
  have range: "\<bar>value_of a - value_of b\<bar> \<le> 2 ^ 1022"
    using ordinary_value [OF assms(1)] ordinary_value [OF assms(2)] powers_in_range(1) by linarith
  show ?thesis
  proof (cases "\<exists>m n. a = PyInt m \<and> b = PyInt n")
    case True
    then obtain m n where mn: "a = PyInt m" "b = PyInt n" by blast
    with assms have "\<bar>m - n\<bar> < 2 ^ 53" by simp
    with mn show ?thesis by (simp add: fl_int flip: of_int_diff)
  next
    case False
    then have "num_sub a b =
        ebind (to_float a) (\<lambda>x. ebind (to_float b) (\<lambda>y. float_result (x - y)))"
      by (cases a; cases b) simp_all
    with range assms show ?thesis
      by (simp add: ordinary_to_float ebind_def float_result_moderate)
  qed
qed

lemma fl_bound_of: "\<bar>x\<bar> \<le> B \<Longrightarrow> \<bar>fl x\<bar> \<le> 2 * B + 1"
  using fl_bound [of x] by linarith

lemma num_truediv_ordinary:
  assumes "value_of r = D" and "\<bar>D\<bar> \<le> 10 ^ 281"
    and "\<forall>k. r = PyInt k \<longrightarrow> \<bar>k\<bar> < 2 ^ 53"
    and "ordinary b" and "1 / 10 ^ 6 \<le> value_of b"
  shows "num_truediv r b = Inr (PyFloat (fl (D / value_of b)))"
proof -
  let ?v = "value_of b"
  have m: "(0::real) < 1 / 10 ^ 6" by simp
  with assms(5) have v: "0 < ?v" by linarith
  have "\<bar>D / ?v\<bar> \<le> 10 ^ 281 / (1 / 10 ^ 6)" using assms(2,5) m by (rule div_bound)
  also have "\<dots> \<le> (2::real) ^ 1022" by simp
  finally have range: "\<bar>D / ?v\<bar> \<le> 2 ^ 1022" .
  have tr: "to_float r = Inr D"
  proof (cases r)
    case (PyInt k)
    with assms(3) have "\<bar>k\<bar> < 2 ^ 53" by blast
    from to_float_int [OF this] PyInt assms(1) show ?thesis by simp
  next
    case (PyFloat x)
    with assms(1) show ?thesis by (simp add: to_float_float)
  qed
  show ?thesis
  proof (cases "\<exists>k n. r = PyInt k \<and> b = PyInt n")
    case True
    then obtain k n where kn: "r = PyInt k" "b = PyInt n" by blast
    with v have "n \<noteq> 0" by auto
    moreover from kn assms(1) range
    have "double_of (of_int k / of_int n) = Some (fl (of_int k / of_int n))"
      by (intro double_of_moderate) auto
    ultimately show ?thesis using kn assms(1) by auto
  next
    case False
    then have "num_truediv r b = ebind (to_float r) (\<lambda>x. ebind (to_float b) (\<lambda>y.
         if y = 0 then Inl ZeroDivisionError else float_result (x / y)))"
      by (cases r; cases b) simp_all
    with tr v range assms(4) show ?thesis
      by (simp add: ordinary_to_float ebind_def float_result_moderate)
  qed
qed

lemma num_mul_hundred:
  assumes "\<bar>q\<bar> \<le> 10 ^ 290"
  shows "num_mul (PyFloat q) (PyInt 100) = Inr (PyFloat (fl (q * 100)))"
proof -
  have "\<bar>100 :: int\<bar> < 2 ^ 53" by simp
  from to_float_int [OF this] have h: "to_float (PyInt 100) = Inr 100" by simp
  from assms have "\<bar>q * 100\<bar> \<le> 10 ^ 290 * 100" by (simp add: abs_mult)
  also have "\<dots> \<le> (2::real) ^ 1022" by simp
  finally show ?thesis by (simp add: h to_float_float ebind_def float_result_moderate)
qed

lemma py_round_near: "\<bar>py_round x n - x\<bar> \<le> 1 / 2"
proof -
  let ?s = "(10::real) ^ n"
  have s: "1 \<le> ?s" by simp
  have "py_round x n - x = (of_int (round_half_even (x * ?s)) - x * ?s) / ?s"
    by (simp add: py_round_def field_simps)
  then have "\<bar>py_round x n - x\<bar> = \<bar>of_int (round_half_even (x * ?s)) - x * ?s\<bar> / ?s"
    by (simp add: abs_divide)
  also have "\<dots> \<le> (1 / 2) / ?s"
    using round_half_even_error [of "x * ?s"] by (intro divide_right_mono) auto
  also have "\<dots> \<le> 1 / 2" using s by (simp add: field_simps)
  finally show ?thesis .
qed

lemma num_round_float:
  assumes "\<bar>x\<bar> \<le> 10 ^ 300"
  shows "num_round (PyFloat x) n = Inr (PyFloat (fl (py_round x n)))"
proof -
  have "\<bar>py_round x n\<bar> \<le> 10 ^ 300 + 1" using py_round_near [of x n] assms by linarith
  also have "\<dots> \<le> (2::real) ^ 1022" by simp
  finally show ?thesis by (simp add: double_of_moderate)
qed

lemma num_round_ordinary: "ordinary a \<Longrightarrow> \<exists>r. num_round a 2 = Inr r"
proof (cases a)
  case (PyInt n)
  then show ?thesis by simp
next
  case (PyFloat x)
  assume "ordinary a"
  with PyFloat have "\<bar>x\<bar> \<le> 10 ^ 280" by simp
  also have "\<dots> \<le> (10::real) ^ 300" by simp
  finally have "num_round (PyFloat x) 2 = Inr (PyFloat (fl (py_round x 2)))"
    by (rule num_round_float)
  with PyFloat show ?thesis by simp
qed


section \<open>Properties of the status change\<close>

lemma index_of_status_order:
  "index_of status_order s =
     (if s = ''critical'' then Inr 0 else if s = ''warning'' then Inr 1
      else if s = ''good'' then Inr 2 else if s = ''excellent'' then Inr 3
      else Inl ValueError)"
  by (simp add: status_order_def ebind_def)

lemma position_or_warning_empty: "position_or_warning [] = 1"
  by (simp add: position_or_warning_def index_of_status_order)

text \<open>
  C3, as stated, is false: for the unrecognized status \<open>unknown\<close> the code does not use
  index 1. The lookup raises ValueError and the handler answers \<open>stable\<close>, where the
  stated rule gives \<open>improved\<close>.
\<close>

theorem status_change_unrecognised_counterexample:
  "get_status_change ''unknown'' ''excellent'' = Inr ''stable''
   \<and> status_delta_spec ''unknown'' ''excellent'' = ''improved''"
  by (simp add: get_status_change_def status_change_body_def status_delta_spec_def
      position_or_warning_def index_of_status_order ebind_def)

text \<open>
  C3, amended: \<open>_get_status_change\<close> never raises. When both statuses are recognised (one
  of critical, warning, good, excellent, or missing, a missing one counting as index 1) it
  returns improved, declined or stable by comparing the positions; when either status is
  non-empty and unrecognized it returns stable. The three examples of the claim hold.
\<close>

theorem status_change_amended:
  "get_status_change previous current =
     Inr (if recognised previous \<and> recognised current
          then status_delta_spec previous current else ''stable'')
   \<and> get_status_change ''critical'' ''excellent'' = Inr ''improved''
   \<and> get_status_change ''good'' ''good'' = Inr ''stable''
   \<and> get_status_change ''excellent'' ''warning'' = Inr ''declined''"
proof -
  have ex: "get_status_change ''critical'' ''excellent'' = Inr ''improved''
      \<and> get_status_change ''good'' ''good'' = Inr ''stable''
      \<and> get_status_change ''excellent'' ''warning'' = Inr ''declined''"
    by (simp add: get_status_change_def status_change_body_def index_of_status_order ebind_def)
  have gen: "get_status_change previous current =
     Inr (if recognised previous \<and> recognised current
          then status_delta_spec previous current else ''stable'')"
  proof (cases "recognised previous \<and> recognised current")
    case True
    then show ?thesis
      by (auto simp: recognised_def status_order_def get_status_change_def
          status_change_body_def status_delta_spec_def position_or_warning_def
          index_of_status_order ebind_def)
  next
    case False
    then show ?thesis
      by (auto simp: recognised_def status_order_def get_status_change_def
          status_change_body_def index_of_status_order ebind_def)
  qed
  from gen ex show ?thesis by blast
qed


section \<open>Properties of aggregate_metrics\<close>





text \<open>
  The guard of line 234 is on the conversions, not on the clicks: a day with a conversion
  and no click makes line 236 divide by zero.
\<close>

lemma aggregate_metrics_clickless_day:
  "aggregate_metrics [clickless_day] = Inl ZeroDivisionError"
  by (simp add: aggregate_metrics_def clickless_day_def initial_totals_def add_item_def
      ebind_def derive_def py_div_def)





section \<open>Properties of the benchmark table and evaluate\<close>

lemma dom_BENCHMARKS:
  "dom BENCHMARKS = {''ROAS'', ''CPC'', ''CTR'', ''CPA'', ''Frequency'', ''ConversionRate''}"
  by (auto simp: BENCHMARKS_def)

lemma BENCHMARKS_gap_denominator: "BENCHMARKS metric = Some b \<Longrightarrow> gap_denominator b \<noteq> 0"
  by (auto simp: BENCHMARKS_def gap_denominator_def split: if_splits)

lemma cpc_from_zero_constructed:
  "BenchmarkManager_init (Some cpc_from_zero) =
     Inr (BENCHMARKS(''CPC'' \<mapsto> \<lparr>industry_min = 0, industry_max = 1.2, excellent = 0.5,
                                 alert_threshold = 2, higher_better = False\<rparr>))"
  by (simp add: BenchmarkManager_init_def cpc_from_zero_def BENCHMARKS_def
      MetricBenchmark_init_def field_names_def ebind_def)

text \<open>
  The status that \<open>evaluate\<close> decides (lines 107-131) is the one of the specification: with
  higher_better, excellent when v \<ge> excellent, else good when v \<ge> industry_min, else
  critical when v < alert_threshold, else warning; without it, excellent when
  v \<le> excellent, else good when v \<le> industry_max, else critical when v > alert_threshold,
  else warning. The result carries it whenever the gap divisor of lines 136 and 138
  (\<open>industry_max\<close> when higher is better, \<open>industry_min\<close> otherwise) is not 0, as it is for
  every entry of the built-in table.
\<close>

lemma evaluate_status:
  assumes "bm metric = Some b" and "gap_denominator b \<noteq> 0"
  shows "result_key (evaluate bm metric v) ''status'' =
           Inr (Some (Str
             (if higher_better b then
                (if v \<ge> excellent b then ''excellent''
                 else if v \<ge> industry_min b then ''good''
                 else if v < alert_threshold b then ''critical''
                 else ''warning'')
              else
                (if v \<le> excellent b then ''excellent''
                 else if v \<le> industry_max b then ''good''
                 else if v > alert_threshold b then ''critical''
                 else ''warning''))))
         \<and> (\<forall>m b'. BENCHMARKS m = Some b' \<longrightarrow> gap_denominator b' \<noteq> 0)"
proof -
  have builtin: "\<forall>m b'. BENCHMARKS m = Some b' \<longrightarrow> gap_denominator b' \<noteq> 0"
    using BENCHMARKS_gap_denominator by blast
  have status: "result_key (evaluate bm metric v) ''status'' =
           Inr (Some (Str
             (if higher_better b then
                (if v \<ge> excellent b then ''excellent''
                 else if v \<ge> industry_min b then ''good''
                 else if v < alert_threshold b then ''critical''
                 else ''warning'')
              else
                (if v \<le> excellent b then ''excellent''
                 else if v \<le> industry_max b then ''good''
                 else if v > alert_threshold b then ''critical''
                 else ''warning''))))"
  proof (cases "higher_better b")
    case True
    with assms show ?thesis
      by (simp add: evaluate_def result_key_def ebind_def py_div_def gap_denominator_def)
  next
    case False
    with assms show ?thesis
      by (simp add: evaluate_def result_key_def ebind_def py_div_def gap_denominator_def)
  qed
  from status builtin show ?thesis by (rule conjI)
qed

lemma evaluate_status_ROAS:
  "BENCHMARKS ''ROAS'' = Some \<lparr>industry_min = 2.5, industry_max = 3.5, excellent = 4.0,
                               alert_threshold = 2.0, higher_better = True\<rparr>
   \<and> result_key (evaluate BENCHMARKS ''ROAS'' 3) ''status'' = Inr (Some (Str ''good''))
   \<and> result_key (evaluate BENCHMARKS ''ROAS'' 1) ''status'' = Inr (Some (Str ''critical''))"
proof -
  let ?b = "\<lparr>industry_min = 2.5, industry_max = 3.5, excellent = 4.0,
             alert_threshold = 2.0, higher_better = True\<rparr>"
  have r: "BENCHMARKS ''ROAS'' = Some ?b" by (simp add: BENCHMARKS_def)
  have g: "gap_denominator ?b \<noteq> 0" by (simp add: gap_denominator_def)
  have a: "result_key (evaluate BENCHMARKS ''ROAS'' 3) ''status'' = Inr (Some (Str ''good''))"
    using conjunct1 [OF evaluate_status [of BENCHMARKS "''ROAS''" ?b 3, OF r g]]
    by simp
  have c: "result_key (evaluate BENCHMARKS ''ROAS'' 1) ''status'' = Inr (Some (Str ''critical''))"
    using conjunct1 [OF evaluate_status [of BENCHMARKS "''ROAS''" ?b 1, OF r g]]
    by simp
  from r a c show ?thesis by (intro conjI)
qed

text \<open>
  C2: the status is decided as claimed, but a registered metric need not get a
  classification. The constructor accepts the override of CPC by the range 0 to 1.2 (lower
  is better, excellent 0.5). The value 0.3 is then at most the excellent threshold, so the
  status is \<open>excellent\<close> at line 120; the gap of line 138 then divides by \<open>industry_min\<close>,
  which is 0, and \<open>evaluate\<close> raises ZeroDivisionError instead of returning.
\<close>

theorem evaluate_zero_gap_divisor:
  "BenchmarkManager_init (Some cpc_from_zero) =
     Inr (BENCHMARKS(''CPC'' \<mapsto> \<lparr>industry_min = 0, industry_max = 1.2, excellent = 0.5,
                                 alert_threshold = 2, higher_better = False\<rparr>))
   \<and> evaluate (BENCHMARKS(''CPC'' \<mapsto> \<lparr>industry_min = 0, industry_max = 1.2, excellent = 0.5,
                                      alert_threshold = 2, higher_better = False\<rparr>))
         ''CPC'' 0.3 = Inl ZeroDivisionError"
  by (simp add: cpc_from_zero_constructed)
    (simp add: evaluate_def ebind_def py_div_def)

text \<open>
  C4: for a metric name that the table does not hold, \<open>evaluate\<close> returns, whatever the
  value, the dictionary of line 103: status \<open>unknown\<close> and a message. It raises nothing,
  but the result has no \<open>gap_percent\<close> entry (and no \<open>is_alert\<close>): the early return
  comes before the gap computation, whose branch for the status \<open>unknown\<close> (lines 139-140)
  would have set the gap to 0.
\<close>

theorem evaluate_unregistered:
  "evaluate (bm(metric := None)) metric v =
     Inr [''status'' \<mapsto> Str ''unknown'', ''message'' \<mapsto> Str ''unknown metric'']
   \<and> result_key (evaluate BENCHMARKS ''CPM'' 7) ''status'' = Inr (Some (Str ''unknown''))
   \<and> result_key (evaluate BENCHMARKS ''CPM'' 7) ''gap_percent'' = Inr None"
  by (simp add: evaluate_def result_key_def ebind_def BENCHMARKS_def)

lemma apply_custom_benchmarks_dom:
  "apply_custom_benchmarks bm custom = Inr bm' \<Longrightarrow> dom bm' = dom bm"
proof (induction bm custom rule: apply_custom_benchmarks.induct)
  case (1 bm)
  then show ?case by simp
next
  case (2 bm metric rest)
  then show ?case by simp
next
  case (3 bm metric kw rest)
  show ?case
  proof (cases "bm metric \<noteq> None")
    case True
    with "3.prems" obtain b where b: "MetricBenchmark_init kw = Inr b"
      and r: "apply_custom_benchmarks (bm(metric \<mapsto> b)) rest = Inr bm'"
      by (auto simp: ebind_def split: sum.splits)
    from "3.IH"(1) [OF True r] have "dom bm' = dom (bm(metric \<mapsto> b))" .
    with True show ?thesis by auto
  next
    case False
    with "3.prems" have "apply_custom_benchmarks bm rest = Inr bm'" by simp
    from "3.IH"(2) [OF _ this] False show ?thesis by simp
  qed
qed

lemma apply_custom_benchmarks_filter:
  "dom bm = dom bm0 \<Longrightarrow>
   apply_custom_benchmarks bm (filter (effective bm0) custom) = apply_custom_benchmarks bm custom"
proof (induction bm custom rule: apply_custom_benchmarks.induct)
  case (1 bm)
  then show ?case by simp
next
  case (2 bm metric rest)
  then show ?case by simp
next
  case (3 bm metric kw rest)
  show ?case
  proof (cases "bm metric \<noteq> None")
    case True
    with "3.prems" have e: "bm0 metric \<noteq> None" by (metis domIff)
    have d: "\<And>b. dom (bm(metric \<mapsto> b)) = dom bm0" using True "3.prems" by auto
    have ih: "\<And>b. apply_custom_benchmarks (bm(metric \<mapsto> b)) (filter (effective bm0) rest)
        = apply_custom_benchmarks (bm(metric \<mapsto> b)) rest"
      using "3.IH"(1) [OF True d] .
    have "apply_custom_benchmarks bm (filter (effective bm0) ((metric, Kwargs kw) # rest))
        = apply_custom_benchmarks bm ((metric, Kwargs kw) # filter (effective bm0) rest)"
      using e by simp
    also have "\<dots> = ebind (MetricBenchmark_init kw)
        (\<lambda>b. apply_custom_benchmarks (bm(metric \<mapsto> b)) (filter (effective bm0) rest))"
      using True by simp
    also have "\<dots> = ebind (MetricBenchmark_init kw)
        (\<lambda>b. apply_custom_benchmarks (bm(metric \<mapsto> b)) rest)"
      by (simp only: ih)
    also have "\<dots> = apply_custom_benchmarks bm ((metric, Kwargs kw) # rest)"
      using True by simp
    finally show ?thesis .
  next
    case False
    with "3.prems" have e: "bm0 metric = None" by (metis domIff)
    with "3.IH"(2) [OF _ "3.prems"] False show ?thesis by simp
  qed
qed

lemma apply_custom_benchmarks_untouched:
  "apply_custom_benchmarks bm custom = Inr bm' \<Longrightarrow>
   \<not> list_ex (\<lambda>entry. fst entry = metric \<and> effective bm entry) custom \<Longrightarrow>
   bm' metric = bm metric"
proof (induction bm custom rule: apply_custom_benchmarks.induct)
  case (1 bm)
  then show ?case by simp
next
  case (2 bm m rest)
  then show ?case by simp
next
  case (3 bm m kw rest)
  show ?case
  proof (cases "bm m \<noteq> None")
    case True
    with "3.prems" obtain b where b: "MetricBenchmark_init kw = Inr b"
      and r: "apply_custom_benchmarks (bm(m \<mapsto> b)) rest = Inr bm'"
      by (auto simp: ebind_def split: sum.splits)
    from "3.prems"(2) True have ne: "m \<noteq> metric" by auto
    have "effective (bm(m \<mapsto> b)) = effective bm"
    proof
      fix entry show "effective (bm(m \<mapsto> b)) entry = effective bm entry"
        using True by (cases "(bm, entry)" rule: effective.cases) auto
    qed
    with "3.prems"(2)
    have "\<not> list_ex (\<lambda>entry. fst entry = metric \<and> effective (bm(m \<mapsto> b)) entry) rest"
      by simp
    from "3.IH"(1) [OF True r this] ne show ?thesis by simp
  next
    case False
    with "3.prems" have r: "apply_custom_benchmarks bm rest = Inr bm'" by simp
    from "3.prems"(2)
    have "\<not> list_ex (\<lambda>entry. fst entry = metric \<and> effective bm entry) rest" by simp
    from "3.IH"(2) [OF _ r this] False show ?thesis by simp
  qed
qed

text \<open>
  C9: the overrides that name no metric of the built-in table, or whose value is no
  dictionary, are ignored: leaving them out of the override dictionary gives the same
  manager (or the same TypeError). Every manager that is constructed registers exactly
  the six built-in names, and an entry that no acted-on override names is the built-in
  one.
\<close>

theorem custom_benchmarks_frame:
  "BenchmarkManager_init (Some (filter (effective BENCHMARKS) custom))
     = BenchmarkManager_init (Some custom)
   \<and> (BenchmarkManager_init custom_benchmarks = Inr bm \<longrightarrow>
        dom bm = {''ROAS'', ''CPC'', ''CTR'', ''CPA'', ''Frequency'', ''ConversionRate''}
        \<and> (\<forall>metric. \<not> overridden custom_benchmarks metric \<longrightarrow> bm metric = BENCHMARKS metric))"
proof -
  have a: "apply_custom_benchmarks BENCHMARKS (filter (effective BENCHMARKS) custom)
      = apply_custom_benchmarks BENCHMARKS custom"
    by (rule apply_custom_benchmarks_filter) simp
  have 1: "BenchmarkManager_init (Some (filter (effective BENCHMARKS) custom))
      = BenchmarkManager_init (Some custom)"
  proof (cases "filter (effective BENCHMARKS) custom = []")
    case True
    with a have "apply_custom_benchmarks BENCHMARKS custom = Inr BENCHMARKS" by simp
    with True show ?thesis by (simp add: BenchmarkManager_init_def)
  next
    case False
    then have "custom \<noteq> []" by auto
    with False a show ?thesis by (simp add: BenchmarkManager_init_def)
  qed
  have 2: "dom bm = {''ROAS'', ''CPC'', ''CTR'', ''CPA'', ''Frequency'', ''ConversionRate''}
        \<and> (\<forall>metric. \<not> overridden custom_benchmarks metric \<longrightarrow> bm metric = BENCHMARKS metric)"
    if h: "BenchmarkManager_init custom_benchmarks = Inr bm"
  proof (cases "bm = BENCHMARKS")
    case True
    then show ?thesis by (simp add: dom_BENCHMARKS)
  next
    case False
    with h obtain custom' where c: "custom_benchmarks = Some custom'"
      and r: "apply_custom_benchmarks BENCHMARKS custom' = Inr bm"
      by (auto simp: BenchmarkManager_init_def split: option.splits if_splits)
    from apply_custom_benchmarks_dom [OF r] have "dom bm = dom BENCHMARKS" .
    moreover
    have "\<forall>metric. \<not> overridden custom_benchmarks metric \<longrightarrow> bm metric = BENCHMARKS metric"
      using apply_custom_benchmarks_untouched [OF r] c by (simp add: overridden_def)
    ultimately show ?thesis by (simp add: dom_BENCHMARKS)
  qed
  from 1 2 show ?thesis by blast
qed

theorem custom_benchmarks_frame_witness:
  "BenchmarkManager_init (Some mixed_overrides) =
     Inr (BENCHMARKS(''CPC'' \<mapsto> \<lparr>industry_min = 0.4, industry_max = 1, excellent = 0.4,
                                 alert_threshold = 1.5, higher_better = False\<rparr>))
   \<and> filter (effective BENCHMARKS) mixed_overrides = [hd mixed_overrides]
   \<and> dom (BENCHMARKS(''CPC'' \<mapsto> \<lparr>industry_min = 0.4, industry_max = 1, excellent = 0.4,
                                 alert_threshold = 1.5, higher_better = False\<rparr>))
       = {''ROAS'', ''CPC'', ''CTR'', ''CPA'', ''Frequency'', ''ConversionRate''}"
proof -
  let ?bm = "BENCHMARKS(''CPC'' \<mapsto> \<lparr>industry_min = 0.4, industry_max = 1, excellent = 0.4,
                                 alert_threshold = 1.5, higher_better = False\<rparr>)"
  have f: "filter (effective BENCHMARKS) mixed_overrides = [hd mixed_overrides]"
    by (simp add: mixed_overrides_def BENCHMARKS_def)
  have "BenchmarkManager_init (Some [hd mixed_overrides]) = Inr ?bm"
    by (simp add: BenchmarkManager_init_def mixed_overrides_def BENCHMARKS_def
        MetricBenchmark_init_def field_names_def ebind_def)
  with f have g: "BenchmarkManager_init (Some (filter (effective BENCHMARKS) mixed_overrides))
      = Inr ?bm" by (simp only:)
  note frame = custom_benchmarks_frame [of mixed_overrides "Some mixed_overrides" ?bm]
  from frame have "BenchmarkManager_init (Some (filter (effective BENCHMARKS) mixed_overrides))
      = BenchmarkManager_init (Some mixed_overrides)" by (rule conjunct1)
  with g have h: "BenchmarkManager_init (Some mixed_overrides) = Inr ?bm" by (simp only:)
  from frame have "BenchmarkManager_init (Some mixed_overrides) = Inr ?bm \<longrightarrow>
        dom ?bm = {''ROAS'', ''CPC'', ''CTR'', ''CPA'', ''Frequency'', ''ConversionRate''}
        \<and> (\<forall>metric. \<not> overridden (Some mixed_overrides) metric
              \<longrightarrow> ?bm metric = BENCHMARKS metric)" by (rule conjunct2)
  from this h
  have "dom ?bm = {''ROAS'', ''CPC'', ''CTR'', ''CPA'', ''Frequency'', ''ConversionRate''}
        \<and> (\<forall>metric. \<not> overridden (Some mixed_overrides) metric
              \<longrightarrow> ?bm metric = BENCHMARKS metric)" by (rule mp)
  then have d: "dom ?bm = {''ROAS'', ''CPC'', ''CTR'', ''CPA'', ''Frequency'', ''ConversionRate''}"
    by (rule conjunct1)
  from h f d show ?thesis by (intro conjI)
qed


section \<open>Properties of the trend analysis\<close>

lemma py_round_0: "py_round 0 n = 0"
  by (simp add: py_round_def round_half_even_def)

lemma py_round_int: "py_round (of_int k) n = of_int k"
proof -
  have "(of_int k :: real) * 10 ^ n = of_int (k * 10 ^ n)" by simp
  then have "round_half_even (of_int k * 10 ^ n) = k * 10 ^ n"
    unfolding round_half_even_def Let_def by (simp del: of_int_mult of_int_power)
  then show ?thesis by (simp add: py_round_def)
qed

lemma percent_change_ordinary:
  assumes "ordinary a" and "ordinary b" and "1 / 10 ^ 6 \<le> value_of b"
  shows "percent_change a b = Inr (PyFloat (double_percent_change (value_of a) (value_of b)))
         \<and> \<bar>double_percent_change (value_of a) (value_of b)\<bar> \<le> 10 ^ 300"
proof -
  let ?D = "fl (value_of a - value_of b)"
  let ?q = "fl (?D / value_of b)"
  from num_sub_ordinary [OF assms(1,2)] obtain r where r: "num_sub a b = Inr r"
    "value_of r = ?D" "\<forall>k. r = PyInt k \<longrightarrow> \<bar>k\<bar> < 2 ^ 53" by blast
  have "\<bar>value_of a - value_of b\<bar> \<le> 10 ^ 280 + 10 ^ 280"
    using ordinary_value [OF assms(1)] ordinary_value [OF assms(2)] by linarith
  from fl_bound_of [OF this] have D: "\<bar>?D\<bar> \<le> 10 ^ 281" by simp
  have m: "(0::real) < 1 / 10 ^ 6" by simp
  have "\<bar>?D / value_of b\<bar> \<le> 10 ^ 281 / (1 / 10 ^ 6)" using D assms(3) m by (rule div_bound)
  also have "\<dots> = (10::real) ^ 287" by simp
  finally have "\<bar>?D / value_of b\<bar> \<le> 10 ^ 287" .
  from fl_bound_of [OF this] have q: "\<bar>?q\<bar> \<le> 10 ^ 290" by simp
  then have "\<bar>?q * 100\<bar> \<le> 10 ^ 292" by (simp add: abs_mult)
  from fl_bound_of [OF this] have c: "\<bar>fl (?q * 100)\<bar> \<le> 10 ^ 300" by simp
  from num_truediv_ordinary [OF r(2) D r(3) assms(2,3)]
  have d: "num_truediv r b = Inr (PyFloat ?q)" .
  from r(1) d num_mul_hundred [OF q] c show ?thesis
    by (simp add: percent_change_def ebind_def double_percent_change_def)
qed

lemma compare_metric_ordinary:
  assumes "ordinary (num0 c metric)" and "ordinary (num0 p metric)"
    and "clear_of_zero (num0 p metric)"
  shows "\<exists>e. compare_metric c p metric = Inr e
     \<and> (0 < value_of (num0 p metric) \<longrightarrow>
          cmp_change_percent e =
            fl (py_round (double_percent_change (value_of (num0 c metric))
                                                (value_of (num0 p metric))) 2))
     \<and> (value_of (num0 p metric) = 0 \<longrightarrow>
          cmp_change_percent e = (if value_of (num0 c metric) = 0 then 0 else 100))"
proof -
  let ?cur = "num0 c metric" and ?prev = "num0 p metric"
  from num_round_ordinary [OF assms(1)] obtain rc where rc: "num_round ?cur 2 = Inr rc" ..
  from num_round_ordinary [OF assms(2)] obtain rp where rp: "num_round ?prev 2 = Inr rp" ..
  show ?thesis
  proof (cases "0 < value_of ?prev")
    case True
    with assms(3) have low: "1 / 10 ^ 6 \<le> value_of ?prev" by (simp add: clear_of_zero_def)
    let ?ch = "double_percent_change (value_of ?cur) (value_of ?prev)"
    from percent_change_ordinary [OF assms(1,2) low]
    have pc: "percent_change ?cur ?prev = Inr (PyFloat ?ch)" and b: "\<bar>?ch\<bar> \<le> 10 ^ 300"
      by simp_all
    from num_round_float [OF b] have "num_round (PyFloat ?ch) 2 = Inr (PyFloat (fl (py_round ?ch 2)))" .
    with True pc rc rp show ?thesis
      by (simp add: compare_metric_def Let_def ebind_def)
  next
    case False
    with rc rp show ?thesis
      by (simp add: compare_metric_def Let_def ebind_def)
  qed
qed

lemma compare_loop_entries:
  assumes "\<forall>m \<in> set ms. \<exists>e. compare_metric c p m = Inr e"
  shows "\<exists>r. compare_loop c p ms acc = Inr r
     \<and> (\<forall>m. r m = (if m \<in> set ms
                      then (case compare_metric c p m of Inl x \<Rightarrow> None | Inr e \<Rightarrow> Some e)
                      else acc m))"
  using assms
proof (induction ms arbitrary: acc)
  case Nil
  then show ?case by simp
next
  case (Cons a ms)
  from Cons.prems obtain e where e: "compare_metric c p a = Inr e" by auto
  from Cons.prems have "\<forall>m \<in> set ms. \<exists>e. compare_metric c p m = Inr e" by simp
  from Cons.IH [OF this, of "acc(a \<mapsto> e)"] obtain r
    where r: "compare_loop c p ms (acc(a \<mapsto> e)) = Inr r"
      and rm: "\<forall>m. r m = (if m \<in> set ms
                      then (case compare_metric c p m of Inl x \<Rightarrow> None | Inr e \<Rightarrow> Some e)
                      else (acc(a \<mapsto> e)) m)" by blast
  from e r have "compare_loop c p (a # ms) acc = Inr r" by (simp add: ebind_def)
  moreover from rm e have "\<forall>m. r m = (if m \<in> set (a # ms)
                      then (case compare_metric c p m of Inl x \<Rightarrow> None | Inr e \<Rightarrow> Some e)
                      else acc m)" by auto
  ultimately show ?case by blast
qed

lemma compare_periods_ordinary:
  assumes "metric \<in> set compared_metrics"
    and "\<forall>m \<in> set compared_metrics.
           ordinary (num0 c m) \<and> ordinary (num0 p m) \<and> clear_of_zero (num0 p m)"
  shows "\<exists>r e. compare_periods c p = Inr r \<and> r metric = Some e
     \<and> (0 < value_of (num0 p metric) \<longrightarrow>
          cmp_change_percent e =
            fl (py_round (double_percent_change (value_of (num0 c metric))
                                                (value_of (num0 p metric))) 2))
     \<and> (value_of (num0 p metric) = 0 \<longrightarrow>
          cmp_change_percent e = (if value_of (num0 c metric) = 0 then 0 else 100))"
proof -
  from assms(2) have all: "\<forall>m \<in> set compared_metrics. \<exists>e. compare_metric c p m = Inr e"
    using compare_metric_ordinary by blast
  from compare_loop_entries [OF all, of Map.empty] obtain r
    where r: "compare_periods c p = Inr r"
      and rm: "\<forall>m. r m = (if m \<in> set compared_metrics
                      then (case compare_metric c p m of Inl x \<Rightarrow> None | Inr e \<Rightarrow> Some e)
                      else None)"
    unfolding compare_periods_def by auto
  from assms have "ordinary (num0 c metric)" "ordinary (num0 p metric)"
    "clear_of_zero (num0 p metric)" by blast+
  from compare_metric_ordinary [OF this] obtain e where e: "compare_metric c p metric = Inr e"
    and f: "0 < value_of (num0 p metric) \<longrightarrow>
          cmp_change_percent e =
            fl (py_round (double_percent_change (value_of (num0 c metric))
                                                (value_of (num0 p metric))) 2)"
      "value_of (num0 p metric) = 0 \<longrightarrow>
          cmp_change_percent e = (if value_of (num0 c metric) = 0 then 0 else 100)"
    by blast
  from rm assms(1) e have "r metric = Some e" by simp
  with r f show ?thesis by blast
qed

lemma fl_23_160: "fl (23 / 160) = 5179139571476070 / 2 ^ 55"
  using fl_certificate [where x = "23 / 160" and b = "- 3" and e = "- 55" and m = "5179139571476070"]
  by (simp add: pow2_def)

lemma fl_23_160_100: "fl (5179139571476070 / 2 ^ 55 * 100) = 8092405580431359 / 2 ^ 49"
  using fl_certificate [where x = "5179139571476070 / 2 ^ 55 * 100" and b = "3" and e = "- 49" and m = "8092405580431359"]
  by (simp add: pow2_def)

lemma fl_1437: "fl (1437 / 100) = 8089590830664253 / 2 ^ 49"
  using fl_certificate [where x = "1437 / 100" and b = "3" and e = "- 49" and m = "8089590830664253"]
  by (simp add: pow2_def)

lemma py_round_change_183_160: "py_round (8092405580431359 / 2 ^ 49) 2 = 1437 / 100"
proof -
  have "round_half_even (8092405580431359 / 2 ^ 49 * 10 ^ 2) = 1437"
    by (rule round_half_even_near) simp
  then show ?thesis by (simp only: py_round_def) simp
qed

lemma double_percent_change_183_160:
  "fl (py_round (double_percent_change 183 160) 2) = 8089590830664253 / 2 ^ 49"
proof -
  have "fl (183 - 160) = (23::real)" using fl_int [of 23] by simp
  then have "double_percent_change 183 160 = 8092405580431359 / 2 ^ 49"
    by (simp only: double_percent_change_def fl_23_160 fl_23_160_100)
  then show ?thesis by (simp only: py_round_change_183_160 fl_1437)
qed

lemma clicks_ordinary:
  "\<forall>m \<in> set compared_metrics.
     ordinary (num0 clicks_now m) \<and> ordinary (num0 clicks_before m)
     \<and> clear_of_zero (num0 clicks_before m)"
  by (simp add: compared_metrics_def num0_def clicks_now_def clicks_before_def
      clear_of_zero_def)

lemma reported_change_clicks:
  "reported_change (compare_periods clicks_now clicks_before) ''clicks''
     = Inr (Some (8089590830664253 / 2 ^ 49))"
proof -
  have m: "''clicks'' \<in> set compared_metrics" by (simp add: compared_metrics_def)
  from compare_periods_ordinary [OF m clicks_ordinary] obtain r e
    where r: "compare_periods clicks_now clicks_before = Inr r" and e: "r ''clicks'' = Some e"
      and c: "0 < value_of (num0 clicks_before ''clicks'') \<longrightarrow>
          cmp_change_percent e =
            fl (py_round (double_percent_change (value_of (num0 clicks_now ''clicks''))
                                                (value_of (num0 clicks_before ''clicks''))) 2)"
    by blast
  have v: "value_of (num0 clicks_now ''clicks'') = 183"
    "value_of (num0 clicks_before ''clicks'') = 160"
    by (simp_all add: num0_def clicks_now_def clicks_before_def)
  from c have "cmp_change_percent e = 8089590830664253 / 2 ^ 49"
    unfolding v by (simp only: double_percent_change_183_160)
  with r e show ?thesis by (simp add: reported_change_def ebind_def)
qed

text \<open>
  C5, as stated, is false: the percent change is computed in double arithmetic and the
  report rounds it to two decimals. From 160 clicks to 183 the exact change is 14.375; the
  code divides 23 by 160, multiplies the rounded quotient by 100, which gives the double
  just below 14.375, and reports the double nearest to 14.37.
\<close>

theorem compare_periods_rounding_counterexample:
  "reported_change (compare_periods clicks_now clicks_before) ''clicks''
     = Inr (Some (8089590830664253 / 2 ^ 49))
   \<and> fl (1437 / 100) = 8089590830664253 / 2 ^ 49
   \<and> exact_change 183 160 = 14.375
   \<and> 8089590830664253 / 2 ^ 49 \<noteq> exact_change 183 160"
  by (simp only: reported_change_clicks fl_1437) (simp add: exact_change_def)

text \<open>
  C5, amended: for periods whose compared values are of ordinary size and clear of zero,
  \<open>compare_periods\<close> returns, and for every metric it compares the reported percent change
  is, when previous > 0, the value of (current - previous) / previous * 100 computed in
  double arithmetic (each of the three operations rounded to the nearest double) and then
  rounded to two decimal places; when previous = 0 it is 0 if current is also 0, and 100
  otherwise.
\<close>

theorem compare_periods_change_percent:
  assumes "metric \<in> set compared_metrics"
    and "\<forall>m \<in> set compared_metrics.
           ordinary (num0 c m) \<and> ordinary (num0 p m) \<and> clear_of_zero (num0 p m)"
  shows "\<exists>r e. compare_periods c p = Inr r \<and> r metric = Some e
     \<and> (0 < value_of (num0 p metric) \<longrightarrow>
          cmp_change_percent e =
            fl (py_round (double_percent_change (value_of (num0 c metric))
                                                (value_of (num0 p metric))) 2))
     \<and> (value_of (num0 p metric) = 0 \<longrightarrow>
          cmp_change_percent e = (if value_of (num0 c metric) = 0 then 0 else 100))"
  using assms by (rule compare_periods_ordinary)

theorem compare_periods_change_percent_witness:
  "''clicks'' \<in> set compared_metrics
   \<and> (\<exists>r e. compare_periods clicks_now clicks_before = Inr r \<and> r ''clicks'' = Some e
          \<and> cmp_change_percent e = 8089590830664253 / 2 ^ 49)
   \<and> (\<exists>r e. compare_periods clicks_now Map.empty = Inr r \<and> r ''clicks'' = Some e
          \<and> cmp_change_percent e = 100)
   \<and> (\<exists>r e. compare_periods Map.empty Map.empty = Inr r \<and> r ''clicks'' = Some e
          \<and> cmp_change_percent e = 0)"
proof -
  have m: "''clicks'' \<in> set compared_metrics" by (simp add: compared_metrics_def)
  have v: "value_of (num0 clicks_now ''clicks'') = 183"
    "value_of (num0 clicks_before ''clicks'') = 160"
    "value_of (num0 Map.empty ''clicks'') = 0"
    by (simp_all add: num0_def clicks_now_def clicks_before_def)
  have o: "\<forall>m \<in> set compared_metrics.
     ordinary (num0 clicks_now m) \<and> ordinary (num0 Map.empty m)
     \<and> clear_of_zero (num0 Map.empty m)"
    by (simp add: compared_metrics_def num0_def clicks_now_def clear_of_zero_def)
  have n: "\<forall>m \<in> set compared_metrics.
     ordinary (num0 Map.empty m) \<and> ordinary (num0 Map.empty m)
     \<and> clear_of_zero (num0 Map.empty m)"
    by (simp add: num0_def clear_of_zero_def)
  from compare_periods_change_percent [OF m clicks_ordinary]
  have a: "\<exists>r e. compare_periods clicks_now clicks_before = Inr r \<and> r ''clicks'' = Some e
          \<and> cmp_change_percent e = 8089590830664253 / 2 ^ 49"
    unfolding v by (simp only: double_percent_change_183_160) auto
  from compare_periods_change_percent [OF m o]
  have b: "\<exists>r e. compare_periods clicks_now Map.empty = Inr r \<and> r ''clicks'' = Some e
          \<and> cmp_change_percent e = 100"
    unfolding v by auto
  from compare_periods_change_percent [OF m n]
  have c: "\<exists>r e. compare_periods Map.empty Map.empty = Inr r \<and> r ''clicks'' = Some e
          \<and> cmp_change_percent e = 0"
    unfolding v by auto
  from m a b c show ?thesis by (intro conjI)
qed

lemma period_value_ordinary:
  assumes "ordinary_periods d" and "metric \<in> set trend_metrics"
  shows "ordinary (period_value d days metric)"
proof (cases "map_of d days")
  case None
  then show ?thesis by (simp add: period_value_def num0_def)
next
  case (Some m)
  then have "(days, m) \<in> set d" by (rule map_of_SomeD)
  with assms have "ordinary (num0 m metric)"
    by (auto simp: ordinary_periods_def list_all_iff)
  with Some show ?thesis by (simp add: period_value_def)
qed

lemma num_round_rounded: "ordinary a \<Longrightarrow> num_round a 2 = Inr (rounded a)"
proof (cases a)
  case (PyInt n)
  then show ?thesis by (simp add: rounded_def)
next
  case (PyFloat x)
  assume "ordinary a"
  with PyFloat have "\<bar>x\<bar> \<le> 10 ^ 280" by simp
  also have "\<dots> \<le> (10::real) ^ 300" by simp
  finally have "num_round (PyFloat x) 2 = Inr (PyFloat (fl (py_round x 2)))"
    by (rule num_round_float)
  with PyFloat show ?thesis by (simp add: rounded_def)
qed

lemma period_values_ordinary:
  assumes "ordinary_periods d" and "metric \<in> set trend_metrics"
  shows "period_values d metric ps = Inr (map (\<lambda>days. (days, rounded (period_value d days metric))) ps)"
proof (induction ps)
  case Nil
  show ?case by simp
next
  case (Cons p ps)
  from period_value_ordinary [OF assms] have "ordinary (period_value d p metric)" .
  then have "num_round (period_value d p metric) 2 = Inr (rounded (period_value d p metric))"
    by (rule num_round_rounded)
  with Cons show ?case by (simp add: ebind_def)
qed

lemma rounded_range:
  assumes "ordinary a"
  shows "to_float (rounded a) = Inr (value_of (rounded a)) \<and> \<bar>value_of (rounded a)\<bar> \<le> 10 ^ 281"
proof (cases a)
  case (PyInt n)
  with assms have "\<bar>n\<bar> < 2 ^ 53" by simp
  from to_float_int [OF this] have t: "to_float (PyInt n) = Inr (of_int n)" .
  from ordinary_value [OF assms] PyInt have "\<bar>of_int n :: real\<bar> \<le> 10 ^ 280" by simp
  also have "\<dots> \<le> (10::real) ^ 281" by simp
  finally show ?thesis using PyInt t by (simp add: rounded_def)
next
  case (PyFloat x)
  with assms have x: "\<bar>x\<bar> \<le> 10 ^ 280" by simp
  have "\<bar>py_round x 2\<bar> \<le> 10 ^ 280 + 1" using py_round_near [of x 2] x by linarith
  from fl_bound_of [OF this] have "\<bar>fl (py_round x 2)\<bar> \<le> 2 * (10 ^ 280 + 1) + 1" .
  also have "\<dots> \<le> (10::real) ^ 281" by simp
  finally show ?thesis using PyFloat by (simp add: rounded_def to_float_float)
qed

lemma num_mul_literal:
  assumes "to_float a = Inr (value_of a)" and "\<bar>value_of a\<bar> \<le> 10 ^ 281" and "\<bar>c\<bar> \<le> 2"
  shows "num_mul a (float_literal c) = Inr (PyFloat (fl (value_of a * fl c)))"
proof -
  from fl_bound_of [OF assms(3)] have c: "\<bar>fl c\<bar> \<le> 5" by simp
  have "\<bar>value_of a * fl c\<bar> = \<bar>value_of a\<bar> * \<bar>fl c\<bar>" by (rule abs_mult)
  also have "\<dots> \<le> 10 ^ 281 * 5" using assms(2) c by (intro mult_mono) auto
  also have "\<dots> \<le> (2::real) ^ 1022" by simp
  finally have r: "float_result (value_of a * fl c) = Inr (PyFloat (fl (value_of a * fl c)))"
    by (rule float_result_moderate)
  have "num_mul a (float_literal c) =
      ebind (to_float a) (\<lambda>x. ebind (to_float (float_literal c)) (\<lambda>y. float_result (x * y)))"
    by (cases a) (simp_all add: float_literal_def)
  with assms(1) r show ?thesis by (simp add: ebind_def float_literal_def to_float_float)
qed

lemma trend_of_ordinary:
  assumes "ordinary_periods d" and "metric \<in> set trend_metrics"
  shows "\<exists>t. trend_of d metric = Inr t
     \<and> mt_values t = map (\<lambda>days. (days, rounded (period_value d days metric))) (sorted_periods d)
     \<and> (length (mt_values t) \<ge> 2 \<longrightarrow>
          mt_trend t = double_trend (value_of (snd (hd (mt_values t))))
                                    (value_of (snd (last (mt_values t)))))
     \<and> (length (mt_values t) < 2 \<longrightarrow> mt_trend t = ''insufficient data'')"
proof -
  let ?vals = "map (\<lambda>days. (days, rounded (period_value d days metric))) (sorted_periods d)"
  have pv: "period_values d metric (sorted_periods d) = Inr ?vals"
    using assms by (rule period_values_ordinary)
  show ?thesis
  proof (cases "length ?vals \<ge> 2")
    case False
    with pv show ?thesis by (simp add: trend_of_def ebind_def)
  next
    case True
    then have ne: "sorted_periods d \<noteq> []" by auto
    let ?first = "snd (hd ?vals)" and ?lst = "snd (last ?vals)"
    have f: "?first = rounded (period_value d (hd (sorted_periods d)) metric)"
      using ne by (simp add: hd_map)
    from rounded_range [OF period_value_ordinary [OF assms, of "hd (sorted_periods d)"]] f
    have fr: "to_float ?first = Inr (value_of ?first)" "\<bar>value_of ?first\<bar> \<le> 10 ^ 281"
      by simp_all
    have "\<bar>11 / 10 :: real\<bar> \<le> 2" "\<bar>9 / 10 :: real\<bar> \<le> 2" by simp_all
    from num_mul_literal [OF fr this(1)] num_mul_literal [OF fr this(2)]
    have hi: "num_mul ?first (float_literal (11 / 10)) = Inr (PyFloat (fl (value_of ?first * fl (11 / 10))))"
      and lo: "num_mul ?first (float_literal (9 / 10)) = Inr (PyFloat (fl (value_of ?first * fl (9 / 10))))"
      by simp_all
    from True pv hi lo show ?thesis
      by (simp add: trend_of_def ebind_def Let_def double_trend_def)
  qed
qed

lemma trend_loop_entries:
  assumes "\<forall>m \<in> set ms. \<exists>t. trend_of d m = Inr t"
  shows "\<exists>r. trend_loop d ms acc = Inr r
     \<and> (\<forall>m. r m = (if m \<in> set ms
                      then (case trend_of d m of Inl x \<Rightarrow> None | Inr t \<Rightarrow> Some t)
                      else acc m))"
  using assms
proof (induction ms arbitrary: acc)
  case Nil
  then show ?case by simp
next
  case (Cons a ms)
  from Cons.prems obtain t where t: "trend_of d a = Inr t" by auto
  from Cons.prems have "\<forall>m \<in> set ms. \<exists>t. trend_of d m = Inr t" by simp
  from Cons.IH [OF this, of "acc(a \<mapsto> t)"] obtain r
    where r: "trend_loop d ms (acc(a \<mapsto> t)) = Inr r"
      and rm: "\<forall>m. r m = (if m \<in> set ms
                      then (case trend_of d m of Inl x \<Rightarrow> None | Inr t \<Rightarrow> Some t)
                      else (acc(a \<mapsto> t)) m)" by blast
  from t r have "trend_loop d (a # ms) acc = Inr r" by (simp add: ebind_def)
  moreover from rm t have "\<forall>m. r m = (if m \<in> set (a # ms)
                      then (case trend_of d m of Inl x \<Rightarrow> None | Inr t \<Rightarrow> Some t)
                      else acc m)" by auto
  ultimately show ?case by blast
qed

lemma analyze_multi_period_ordinary:
  assumes "metric \<in> set trend_metrics" and "ordinary_periods d"
  shows "\<exists>r t. analyze_multi_period d = Inr r \<and> mp_metrics_trend r metric = Some t
     \<and> mp_periods r = sort (remdups (map fst d))
     \<and> mt_values t = map (\<lambda>days. (days, rounded (period_value d days metric))) (mp_periods r)
     \<and> sorted (map fst (mt_values t))
     \<and> (length (mt_values t) \<ge> 2 \<longrightarrow>
          mt_trend t = double_trend (value_of (snd (hd (mt_values t))))
                                    (value_of (snd (last (mt_values t)))))
     \<and> (length (mt_values t) < 2 \<longrightarrow> mt_trend t = ''insufficient data'')"
proof -
  from assms(2) have all: "\<forall>m \<in> set trend_metrics. \<exists>t. trend_of d m = Inr t"
    using trend_of_ordinary by blast
  from trend_loop_entries [OF all, of Map.empty] obtain mt
    where l: "trend_loop d trend_metrics Map.empty = Inr mt"
      and rm: "\<forall>m. mt m = (if m \<in> set trend_metrics
                      then (case trend_of d m of Inl x \<Rightarrow> None | Inr t \<Rightarrow> Some t)
                      else None)"
    by auto
  from trend_of_ordinary [OF assms(2,1)] obtain t where t: "trend_of d metric = Inr t"
    and v: "mt_values t = map (\<lambda>days. (days, rounded (period_value d days metric))) (sorted_periods d)"
    and r: "length (mt_values t) \<ge> 2 \<longrightarrow>
          mt_trend t = double_trend (value_of (snd (hd (mt_values t))))
                                    (value_of (snd (last (mt_values t))))"
    and u: "length (mt_values t) < 2 \<longrightarrow> mt_trend t = ''insufficient data''"
    by blast
  let ?r = "\<lparr>mp_periods = sorted_periods d, mp_metrics_trend = mt\<rparr>"
  from l have a: "analyze_multi_period d = Inr ?r"
    by (simp add: analyze_multi_period_def ebind_def)
  from rm assms(1) t have e: "mp_metrics_trend ?r metric = Some t" by simp
  have p: "mp_periods ?r = sort (remdups (map fst d))" by (simp add: sorted_periods_def)
  have f: "map fst (mt_values t) = sort (remdups (map fst d))"
    unfolding v by (simp add: sorted_periods_def comp_def)
  have o: "sorted (map fst (mt_values t))" unfolding f by simp
  have s: "mt_values t = map (\<lambda>days. (days, rounded (period_value d days metric))) (mp_periods ?r)"
    unfolding v by simp
  from a e p o s r u show ?thesis by blast
qed

lemma double_of_overflow: assumes "2 ^ 1025 \<le> \<bar>x\<bar>" shows "double_of x = None"
proof -
  have "(1::real) / 2 ^ 1000 \<le> 2 ^ 1025" by simp
  with assms have "1 / 2 ^ 1000 \<le> \<bar>x\<bar>" by linarith
  from fl_lower [OF this] assms have "2 ^ 1025 / 2 \<le> \<bar>fl x\<bar>" by linarith
  then have "\<not> \<bar>fl x\<bar> < 2 ^ 1024" by simp
  then show ?thesis by (simp only: double_of_def if_False)
qed

lemma fl_0_8: "fl (4 / 5) = 3602879701896397 / 4503599627370496"
  using fl_certificate [where x = "4 / 5" and b = "- 1" and e = "- 53" and m = "7205759403792794"]
  by (simp add: pow2_def)

lemma fl_0_72: "fl (18 / 25) = 3242591731706757 / 4503599627370496"
  using fl_certificate [where x = "18 / 25" and b = "- 1" and e = "- 53" and m = "6485183463413514"]
  by (simp add: pow2_def)

lemma fl_1_1: "fl (11 / 10) = 2476979795053773 / 2251799813685248"
  using fl_certificate [where x = "11 / 10" and b = "0" and e = "- 52" and m = "4953959590107546"]
  by (simp add: pow2_def)

lemma fl_0_9: "fl (9 / 10) = 8106479329266893 / 9007199254740992"
  using fl_certificate [where x = "9 / 10" and b = "- 1" and e = "- 53" and m = "8106479329266893"]
  by (simp add: pow2_def)

lemma py_round_0_8: "py_round (3602879701896397 / 4503599627370496) 2 = 4 / 5"
proof -
  have "round_half_even (3602879701896397 / 4503599627370496 * 10 ^ 2) = 80"
    by (rule round_half_even_near) simp
  then show ?thesis by (simp only: py_round_def) simp
qed

lemma py_round_0_72: "py_round (3242591731706757 / 4503599627370496) 2 = 18 / 25"
proof -
  have "round_half_even (3242591731706757 / 4503599627370496 * 10 ^ 2) = 72"
    by (rule round_half_even_near) simp
  then show ?thesis by (simp only: py_round_def) simp
qed

lemma fl_0_8_times_1_1: "fl (8924260225606736202508689955881 / 10141204801825835211973625643008) = 3963167672086037 / 4503599627370496"
  using fl_certificate [where x = "8924260225606736202508689955881 / 10141204801825835211973625643008" and b = "- 1" and e = "- 53" and m = "7926335344172074"]
  by (simp add: pow2_def)

lemma fl_0_8_times_0_9: "fl (29206669829258407752355848084521 / 40564819207303340847894502572032) = 6485183463413515 / 9007199254740992"
  using fl_certificate [where x = "29206669829258407752355848084521 / 40564819207303340847894502572032" and b = "- 1" and e = "- 53" and m = "6485183463413515"]
  by (simp add: pow2_def)

lemma fl_10_times_1_1: "fl (12384898975268865 / 1125899906842624) = 11"
  using fl_certificate_tie [where x = "12384898975268865 / 1125899906842624" and b = "3" and e = "- 49" and m = "6192449487634432"]
  by (simp add: pow2_def)

lemma fl_10_times_0_9: "fl (40532396646334465 / 4503599627370496) = 9"
  using fl_certificate [where x = "40532396646334465 / 4503599627370496" and b = "3" and e = "- 49" and m = "5066549580791808"]
  by (simp add: pow2_def)

lemma double_trend_10_5: "double_trend 10 5 = ''falling''"
  by (simp add: double_trend_def fl_1_1 fl_0_9 fl_10_times_1_1 fl_10_times_0_9)

lemma double_trend_slipping:
  "double_trend (3602879701896397 / 4503599627370496) (3242591731706757 / 4503599627370496)
     = ''falling''"
  by (simp add: double_trend_def fl_1_1 fl_0_9 fl_0_8_times_1_1 fl_0_8_times_0_9)

lemma rounded_10: "rounded (PyFloat 10) = PyFloat 10" "rounded (PyFloat 5) = PyFloat 5"
  using py_round_int [of 10 2] py_round_int [of 5 2] fl_int [of 10] fl_int [of 5]
  by (simp_all add: rounded_def)

lemma rounded_slipping:
  "rounded (float_literal (4 / 5)) = PyFloat (3602879701896397 / 4503599627370496)"
  "rounded (float_literal (18 / 25)) = PyFloat (3242591731706757 / 4503599627370496)"
  by (simp_all add: rounded_def float_literal_def fl_0_8 fl_0_72 py_round_0_8 py_round_0_72)

lemma example_periods_ordinary: "ordinary_periods example_periods"
  by (simp add: ordinary_periods_def example_periods_def trend_metrics_def num0_def)

lemma slipping_periods_ordinary: "ordinary_periods slipping_periods"
  by (simp add: ordinary_periods_def slipping_periods_def trend_metrics_def num0_def
      float_literal_def fl_0_8 fl_0_72)

lemma example_periods_values:
  "map (\<lambda>days. (days, rounded (period_value example_periods days ''roas'')))
     (sort (remdups (map fst example_periods)))
     = [(1, PyFloat 10), (3, PyFloat 10), (7, PyFloat 5)]"
  by (simp add: example_periods_def period_value_def num0_def rounded_10)

lemma slipping_periods_values:
  "map (\<lambda>days. (days, rounded (period_value slipping_periods days ''roas'')))
     (sort (remdups (map fst slipping_periods)))
     = [(1, PyFloat (3602879701896397 / 4503599627370496)),
        (7, PyFloat (3242591731706757 / 4503599627370496))]"
  by (simp add: slipping_periods_def period_value_def num0_def rounded_slipping)

lemma reported_trend_slipping:
  "reported_trend (analyze_multi_period slipping_periods) ''roas'' = Inr (Some ''falling'')"
proof -
  have m: "''roas'' \<in> set trend_metrics" by (simp add: trend_metrics_def)
  from analyze_multi_period_ordinary [OF m slipping_periods_ordinary] obtain r t
    where a: "analyze_multi_period slipping_periods = Inr r"
      and e: "mp_metrics_trend r ''roas'' = Some t"
      and p: "mp_periods r = sort (remdups (map fst slipping_periods))"
      and v: "mt_values t = map (\<lambda>days. (days, rounded (period_value slipping_periods days ''roas''))) (mp_periods r)"
      and c: "length (mt_values t) \<ge> 2 \<longrightarrow>
          mt_trend t = double_trend (value_of (snd (hd (mt_values t))))
                                    (value_of (snd (last (mt_values t))))"
    by blast
  from v have v': "mt_values t = [(1, PyFloat (3602879701896397 / 4503599627370496)),
        (7, PyFloat (3242591731706757 / 4503599627370496))]"
    unfolding p by (simp only: slipping_periods_values)
  from c have "mt_trend t = ''falling''"
    unfolding v' using double_trend_slipping by simp
  with a e show ?thesis by (simp add: reported_trend_def ebind_def)
qed

text \<open>
  The size bound of the amended C6 is needed: \<open>first * 1.1\<close> converts the first value to a
  float, and an int beyond the doubles makes the conversion raise OverflowError.
\<close>

lemma analyze_multi_period_oversized:
  "analyze_multi_period oversized_periods = Inl OverflowError"
proof -
  have "(2::real) ^ 1025 \<le> \<bar>of_int (10 ^ 309)\<bar>" by simp
  then have "double_of (of_int (10 ^ 309)) = None" by (rule double_of_overflow)
  then have t: "to_float (PyInt (10 ^ 309)) = Inl OverflowError" by (simp add: to_float_def)
  have n: "num_mul (PyInt (10 ^ 309)) (float_literal (11 / 10)) = Inl OverflowError"
    by (simp only: float_literal_def num_mul.simps t) (simp add: ebind_def)
  have v: "period_values oversized_periods ''roas'' (sorted_periods oversized_periods)
      = Inr [(1, PyInt (10 ^ 309)), (7, PyInt 1)]"
    by (simp add: oversized_periods_def sorted_periods_def period_value_def num0_def ebind_def)
  have "trend_of oversized_periods ''roas'' = Inl OverflowError"
    unfolding trend_of_def v using n by (simp add: ebind_def)
  then show ?thesis
    by (simp add: analyze_multi_period_def trend_metrics_def ebind_def)
qed

text \<open>
  C6, as stated, is false: the products \<open>first * 1.1\<close> and \<open>first * 0.9\<close> are float products.
  With a ROAS of 0.8 over one day and 0.72 over seven, 0.72 is not below 0.8 * 0.9 = 0.72,
  which is stable by the specification; but the float product \<open>0.8 * 0.9\<close> is the double
  just above 0.72, and the code reports falling.
\<close>

theorem analyze_multi_period_product_counterexample:
  "reported_trend (analyze_multi_period slipping_periods) ''roas'' = Inr (Some ''falling'')
   \<and> exact_trend 0.8 0.72 = ''stable''"
  by (simp only: reported_trend_slipping) (simp add: exact_trend_def)

text \<open>
  C6, amended: for periods whose trend metrics are of ordinary size \<open>analyze_multi_period\<close>
  returns; the periods of the result are the given period lengths sorted ascending, and
  each metric's value sequence follows them and holds each period's value rounded to two
  decimals. With at least 2 points the trend is rising when the last value exceeds the
  float product of the first value and 1.1, else falling when it is below the float
  product of the first value and 0.9, else stable; with fewer than 2 points it is
  insufficient data. The periods 1, 3, 7 with values 10, 10, 5 are falling, in whatever
  order they were entered.
\<close>

theorem analyze_multi_period_trend:
  assumes "metric \<in> set trend_metrics" and "ordinary_periods d"
  shows "\<exists>r t. analyze_multi_period d = Inr r \<and> mp_metrics_trend r metric = Some t
     \<and> mp_periods r = sort (remdups (map fst d))
     \<and> mt_values t = map (\<lambda>days. (days, rounded (period_value d days metric))) (mp_periods r)
     \<and> sorted (map fst (mt_values t))
     \<and> (length (mt_values t) \<ge> 2 \<longrightarrow>
          mt_trend t = double_trend (value_of (snd (hd (mt_values t))))
                                    (value_of (snd (last (mt_values t)))))
     \<and> (length (mt_values t) < 2 \<longrightarrow> mt_trend t = ''insufficient data'')"
  using assms by (rule analyze_multi_period_ordinary)

theorem analyze_multi_period_trend_witness:
  "''roas'' \<in> set trend_metrics
   \<and> ordinary_periods example_periods
   \<and> map fst example_periods = [7, 1, 3]
   \<and> (\<exists>r t. analyze_multi_period example_periods = Inr r
          \<and> mp_metrics_trend r ''roas'' = Some t
          \<and> mp_periods r = [1, 3, 7]
          \<and> mt_values t = [(1, PyFloat 10), (3, PyFloat 10), (7, PyFloat 5)]
          \<and> mt_trend t = ''falling'')"
proof -
  have m: "''roas'' \<in> set trend_metrics" by (simp add: trend_metrics_def)
  have k: "map fst example_periods = [7, 1, 3]" by (simp add: example_periods_def)
  from analyze_multi_period_trend [OF m example_periods_ordinary] obtain r t
    where a: "analyze_multi_period example_periods = Inr r"
      and e: "mp_metrics_trend r ''roas'' = Some t"
      and p: "mp_periods r = sort (remdups (map fst example_periods))"
      and v: "mt_values t = map (\<lambda>days. (days, rounded (period_value example_periods days ''roas''))) (mp_periods r)"
      and c: "length (mt_values t) \<ge> 2 \<longrightarrow>
          mt_trend t = double_trend (value_of (snd (hd (mt_values t))))
                                    (value_of (snd (last (mt_values t))))"
    by blast
  from p k have p': "mp_periods r = [1, 3, 7]" by simp
  from v have v': "mt_values t = [(1, PyFloat 10), (3, PyFloat 10), (7, PyFloat 5)]"
    unfolding p by (simp only: example_periods_values)
  from c have f: "mt_trend t = ''falling''"
    unfolding v' using double_trend_10_5 by simp
  from a e p' v' f have "\<exists>r t. analyze_multi_period example_periods = Inr r
          \<and> mp_metrics_trend r ''roas'' = Some t
          \<and> mp_periods r = [1, 3, 7]
          \<and> mt_values t = [(1, PyFloat 10), (3, PyFloat 10), (7, PyFloat 5)]
          \<and> mt_trend t = ''falling''" by blast
  with m example_periods_ordinary k show ?thesis by (intro conjI)
qed

lemma split_days_weekdays:
  "list_all (usable_on_weekday wd) data \<Longrightarrow>
   snd (split_days wd metric data (wk, we)) = we"
proof (induction data arbitrary: wk)
  case Nil
  then show ?case by simp
next
  case (Cons item rest)
  then show ?case
    by (auto simp: usable_on_weekday_def Let_def split: option.splits)
qed

text \<open>
  C10: when every daily record is either skipped (no date, or a date that does not parse)
  or falls on a weekday, \<open>detect_weekly_pattern\<close> returns weekend average 0 and ratio 0,
  and its pattern is the wording for a stronger weekend.
\<close>

theorem detect_weekly_pattern_no_weekend:
  assumes "list_all (usable_on_weekday wd) data"
  shows "wp_weekend_avg (detect_weekly_pattern wd data metric) = 0
       \<and> wp_ratio (detect_weekly_pattern wd data metric) = 0
       \<and> wp_pattern (detect_weekly_pattern wd data metric) = ''weekend better''"
proof -
  obtain wk we where s: "split_days wd metric data ([], []) = (wk, we)" by force
  with split_days_weekdays [OF assms, of metric "[]" "[]"] have "we = []" by simp
  with s show ?thesis
    by (simp add: detect_weekly_pattern_def Let_def py_round_0)
qed

theorem detect_weekly_pattern_no_weekend_witness:
  "list_all (usable_on_weekday first_week_2024) working_days
   \<and> split_days first_week_2024 ''roas'' working_days ([], []) = ([4, 2], [])
   \<and> wp_weekend_avg (detect_weekly_pattern first_week_2024 working_days ''roas'') = 0
   \<and> wp_ratio (detect_weekly_pattern first_week_2024 working_days ''roas'') = 0
   \<and> wp_pattern (detect_weekly_pattern first_week_2024 working_days ''roas'')
       = ''weekend better''"
proof -
  have u: "list_all (usable_on_weekday first_week_2024) working_days"
    by (simp add: usable_on_weekday_def first_week_2024_def working_days_def)
  have s: "split_days first_week_2024 ''roas'' working_days ([], []) = ([4, 2], [])"
    by (simp add: first_week_2024_def working_days_def get0_def)
  from u s detect_weekly_pattern_no_weekend [OF u, of "''roas''"] show ?thesis
    by (intro conjI) simp_all
qed


section \<open>Properties of the anomaly detection\<close>

text \<open>
  C7: without campaign data, \<open>detect_all\<close> returns the account anomalies, and each of the
  four rules contributes its anomaly exactly when its own condition holds, whatever the
  other three do: ROAS below roas_min is critical, CPC above cpc_max is a warning, no
  conversions with spend above no_conversion_spend is critical, frequency above
  frequency_max is a warning. All four fire on one aggregate. With ROAS 1 against
  roas_min 2, spend 150 against no_conversion_spend 100, no conversions, and CPC and
  frequency within their thresholds, the result is exactly the two critical anomalies.
\<close>

theorem account_anomaly_rules:
  "fired (detect_all fmt th data None) =
     Inr ((if get0 data ''roas'' < roas_min th
           then [(''Account'', ''ROAS'', ''critical'')] else [])
        @ (if get0 data ''cpc'' > cpc_max th
           then [(''Account'', ''CPC'', ''warning'')] else [])
        @ (if get0 data ''conversions'' = 0 \<and> get0 data ''spend'' > no_conversion_spend th
           then [(''Account'', ''conversions'', ''critical'')] else [])
        @ (if get0 data ''frequency'' > frequency_max th
           then [(''Account'', ''Frequency'', ''warning'')] else []))
   \<and> fired (detect_all fmt default_thresholds all_rules_broken None) =
       Inr [(''Account'', ''ROAS'', ''critical''), (''Account'', ''CPC'', ''warning''),
            (''Account'', ''conversions'', ''critical''), (''Account'', ''Frequency'', ''warning'')]
   \<and> (get0 data ''roas'' = 1 \<and> roas_min th = 2 \<and> get0 data ''spend'' = 150
        \<and> get0 data ''conversions'' = 0 \<and> no_conversion_spend th = 100
        \<and> get0 data ''cpc'' \<le> cpc_max th \<and> get0 data ''frequency'' \<le> frequency_max th
      \<longrightarrow> fired (detect_all fmt th data None) =
            Inr [(''Account'', ''ROAS'', ''critical''),
                 (''Account'', ''conversions'', ''critical'')])"
proof -
  have rules: "fired (detect_all fmt th data None) =
     Inr ((if get0 data ''roas'' < roas_min th
           then [(''Account'', ''ROAS'', ''critical'')] else [])
        @ (if get0 data ''cpc'' > cpc_max th
           then [(''Account'', ''CPC'', ''warning'')] else [])
        @ (if get0 data ''conversions'' = 0 \<and> get0 data ''spend'' > no_conversion_spend th
           then [(''Account'', ''conversions'', ''critical'')] else [])
        @ (if get0 data ''frequency'' > frequency_max th
           then [(''Account'', ''Frequency'', ''warning'')] else []))"
    by (simp add: fired_def detect_all_def detect_account_anomalies_def Let_def ebind_def)
  have four: "fired (detect_all fmt default_thresholds all_rules_broken None) =
       Inr [(''Account'', ''ROAS'', ''critical''), (''Account'', ''CPC'', ''warning''),
            (''Account'', ''conversions'', ''critical''), (''Account'', ''Frequency'', ''warning'')]"
    by (simp add: fired_def detect_all_def detect_account_anomalies_def Let_def ebind_def
        default_thresholds_def all_rules_broken_def get0_def)
  have two: "get0 data ''roas'' = 1 \<and> roas_min th = 2 \<and> get0 data ''spend'' = 150
        \<and> get0 data ''conversions'' = 0 \<and> no_conversion_spend th = 100
        \<and> get0 data ''cpc'' \<le> cpc_max th \<and> get0 data ''frequency'' \<le> frequency_max th
      \<longrightarrow> fired (detect_all fmt th data None) =
            Inr [(''Account'', ''ROAS'', ''critical''),
                 (''Account'', ''conversions'', ''critical'')]"
    unfolding rules by simp
  from rules four two show ?thesis by (intro conjI)
qed

theorem account_anomaly_rules_witness:
  "get0 spending_without_return ''roas'' = 1 \<and> roas_min default_thresholds = 2
   \<and> get0 spending_without_return ''spend'' = 150
   \<and> get0 spending_without_return ''conversions'' = 0
   \<and> no_conversion_spend default_thresholds = 100
   \<and> get0 spending_without_return ''cpc'' \<le> cpc_max default_thresholds
   \<and> get0 spending_without_return ''frequency'' \<le> frequency_max default_thresholds
   \<and> fired (detect_all blank_format default_thresholds spending_without_return None) =
       Inr [(''Account'', ''ROAS'', ''critical''), (''Account'', ''conversions'', ''critical'')]"
proof -
  have h: "get0 spending_without_return ''roas'' = 1 \<and> roas_min default_thresholds = 2
     \<and> get0 spending_without_return ''spend'' = 150
     \<and> get0 spending_without_return ''conversions'' = 0
     \<and> no_conversion_spend default_thresholds = 100
     \<and> get0 spending_without_return ''cpc'' \<le> cpc_max default_thresholds
     \<and> get0 spending_without_return ''frequency'' \<le> frequency_max default_thresholds"
    by (simp add: spending_without_return_def default_thresholds_def get0_def)
  note rules = account_anomaly_rules [of blank_format default_thresholds spending_without_return]
  from rules have "get0 spending_without_return ''roas'' = 1 \<and> roas_min default_thresholds = 2
     \<and> get0 spending_without_return ''spend'' = 150
     \<and> get0 spending_without_return ''conversions'' = 0
     \<and> no_conversion_spend default_thresholds = 100
     \<and> get0 spending_without_return ''cpc'' \<le> cpc_max default_thresholds
     \<and> get0 spending_without_return ''frequency'' \<le> frequency_max default_thresholds
     \<longrightarrow> fired (detect_all blank_format default_thresholds spending_without_return None) =
       Inr [(''Account'', ''ROAS'', ''critical''), (''Account'', ''conversions'', ''critical'')]"
    by (elim conjE)
  from this h have "fired (detect_all blank_format default_thresholds spending_without_return None) =
       Inr [(''Account'', ''ROAS'', ''critical''), (''Account'', ''conversions'', ''critical'')]"
    by (rule mp)
  with h show ?thesis by simp
qed


section \<open>Properties of the insights\<close>

lemma fromkeys_from:
  "foldl (\<lambda>seen x. if x \<in> set seen then seen else seen @ [x]) acc xs
     = acc @ dedup_first (filter (\<lambda>y. y \<notin> set acc) xs)"
proof (induction xs arbitrary: acc)
  case Nil
  then show ?case by simp
next
  case (Cons x xs)
  show ?case
  proof (cases "x \<in> set acc")
    case True
    then show ?thesis by (simp add: Cons.IH)
  next
    case False
    have "filter (\<lambda>y. y \<notin> set (acc @ [x])) xs
        = filter (\<lambda>y. y \<noteq> x) (filter (\<lambda>y. y \<notin> set acc) xs)"
      by (simp add: conj_commute)
    with False show ?thesis by (simp add: Cons.IH)
  qed
qed

lemma fromkeys_dedup_first: "fromkeys xs = dedup_first xs"
  by (simp add: fromkeys_def fromkeys_from)

lemma set_dedup_first: "set (dedup_first xs) = set xs"
  by (induction xs rule: dedup_first.induct) auto

lemma distinct_dedup_first: "distinct (dedup_first xs)"
  by (induction xs rule: dedup_first.induct) (auto simp: set_dedup_first)

lemma count_list_distinct: "distinct xs \<Longrightarrow> x \<in> set xs \<Longrightarrow> count_list xs x = 1"
  by (induction xs) (auto simp: count_list_0_iff)

lemma raw_insights_twins:
  "raw_insights Map.empty no_trend [] twin_anomalies
     = [''[tip] check the tracking'', ''[tip] check the tracking'']"
  by (simp add: raw_insights_def no_trend_def twin_anomalies_def)

lemma raw_insights_crowd:
  "raw_insights Map.empty no_trend six_alerts twin_anomalies =
     map (\<lambda>name. ''[alert] '' @ name @ '' is below the industry standard and needs attention'')
       [''ROAS'', ''CPC'', ''CTR'', ''CPA'', ''Frequency'', ''ConversionRate'']
     @ [''[tip] check the tracking'', ''[tip] check the tracking'']"
  by (simp add: raw_insights_def no_trend_def twin_anomalies_def six_alerts_def
      alert_report_def)

text \<open>
  C8, as stated, is false: a text produced by two triggers need not be in the final list at
  all. With six alert texts collected before them, the two tracking tips of
  \<open>twin_anomalies\<close> are collected twice, de-duplicated to one entry in seventh place, and
  cut off by \<open>[:5]\<close>.
\<close>

theorem generate_insights_cut_counterexample:
  "count_list (raw_insights Map.empty no_trend six_alerts twin_anomalies)
     ''[tip] check the tracking'' = 2
   \<and> count_list (fromkeys (raw_insights Map.empty no_trend six_alerts twin_anomalies))
     ''[tip] check the tracking'' = 1
   \<and> count_list (generate_insights Map.empty no_trend six_alerts twin_anomalies)
     ''[tip] check the tracking'' = 0"
  by (simp add: generate_insights_def raw_insights_crowd fromkeys_def)

text \<open>
  C8, amended: the insights are the collected texts de-duplicated preserving first
  occurrence and cut to the first five. The result has at most 5 entries, only collected
  texts, and every text at most once. In the de-duplicated list every collected text stands
  exactly once, however many triggers produced it, and so it does in the result when no
  more than five different texts were collected.
\<close>

theorem generate_insights_dedup_limit:
  "generate_insights c t b a = take 5 (dedup_first (raw_insights c t b a))
   \<and> length (generate_insights c t b a) \<le> 5
   \<and> distinct (generate_insights c t b a)
   \<and> (\<forall>x. count_list (generate_insights c t b a) x \<le> 1)
   \<and> set (generate_insights c t b a) \<subseteq> set (raw_insights c t b a)
   \<and> (\<forall>x. x \<in> set (raw_insights c t b a) \<longrightarrow>
         count_list (fromkeys (raw_insights c t b a)) x = 1)
   \<and> (length (fromkeys (raw_insights c t b a)) \<le> 5 \<longrightarrow>
        (\<forall>x. x \<in> set (raw_insights c t b a) \<longrightarrow>
           count_list (generate_insights c t b a) x = 1))"
proof -
  let ?raw = "raw_insights c t b a"
  have g: "generate_insights c t b a = take 5 (dedup_first ?raw)"
    by (simp add: generate_insights_def fromkeys_dedup_first)
  have l: "length (generate_insights c t b a) \<le> 5" unfolding g by simp
  have d: "distinct (generate_insights c t b a)"
    unfolding g by (simp add: distinct_dedup_first)
  have m: "\<forall>x. count_list (generate_insights c t b a) x \<le> 1"
  proof
    fix x
    show "count_list (generate_insights c t b a) x \<le> 1"
      using d count_list_distinct [of "generate_insights c t b a" x]
      by (cases "x \<in> set (generate_insights c t b a)") (simp_all add: count_list_0_iff)
  qed
  have s: "set (generate_insights c t b a) \<subseteq> set ?raw"
    unfolding g using set_take_subset [of 5 "dedup_first ?raw"] by (simp add: set_dedup_first)
  have o: "\<forall>x. x \<in> set ?raw \<longrightarrow> count_list (fromkeys ?raw) x = 1"
    by (simp add: fromkeys_dedup_first count_list_distinct distinct_dedup_first
        set_dedup_first)
  have w: "length (fromkeys ?raw) \<le> 5 \<longrightarrow>
        (\<forall>x. x \<in> set ?raw \<longrightarrow> count_list (generate_insights c t b a) x = 1)"
    using o by (simp add: generate_insights_def)
  from g l d m s o w show ?thesis by blast
qed

theorem generate_insights_dedup_limit_witness:
  "''[tip] check the tracking'' \<in> set (raw_insights Map.empty no_trend [] twin_anomalies)
   \<and> length (fromkeys (raw_insights Map.empty no_trend [] twin_anomalies)) = 1
   \<and> generate_insights Map.empty no_trend [] twin_anomalies = [''[tip] check the tracking'']
   \<and> length (raw_insights Map.empty no_trend six_alerts twin_anomalies) = 8
   \<and> length (generate_insights Map.empty no_trend six_alerts twin_anomalies) = 5"
proof -
  let ?tip = "''[tip] check the tracking''"
  let ?g = "generate_insights Map.empty no_trend [] twin_anomalies"
  have m: "?tip \<in> set (raw_insights Map.empty no_trend [] twin_anomalies)"
    by (simp add: raw_insights_twins)
  have k: "length (fromkeys (raw_insights Map.empty no_trend [] twin_anomalies)) = 1"
    by (simp add: raw_insights_twins fromkeys_def)
  note facts = generate_insights_dedup_limit [of Map.empty no_trend "[]" twin_anomalies]
  from facts have sub: "set ?g \<subseteq> set (raw_insights Map.empty no_trend [] twin_anomalies)"
    by (elim conjE)
  from facts have once: "length (fromkeys (raw_insights Map.empty no_trend [] twin_anomalies)) \<le> 5
      \<longrightarrow> (\<forall>x. x \<in> set (raw_insights Map.empty no_trend [] twin_anomalies)
             \<longrightarrow> count_list ?g x = 1)"
    by (elim conjE)
  with k m have c: "count_list ?g ?tip = 1" by simp
  from sub have only: "set ?g \<subseteq> {?tip}" by (simp add: raw_insights_twins)
  have one: "?g = [?tip]"
  proof (cases ?g)
    case Nil
    with c show ?thesis by simp
  next
    case (Cons x xs)
    with only have x: "x = ?tip" and xs: "set xs \<subseteq> {?tip}" by auto
    from c Cons x have "count_list xs ?tip = 0" by simp
    then have "?tip \<notin> set xs" by (simp add: count_list_0_iff)
    with xs have "xs = []" by (cases xs) auto
    with Cons x show ?thesis by simp
  qed
  have r: "length (raw_insights Map.empty no_trend six_alerts twin_anomalies) = 8"
    by (simp add: raw_insights_crowd)
  have f: "length (generate_insights Map.empty no_trend six_alerts twin_anomalies) = 5"
    by (simp add: generate_insights_def raw_insights_crowd fromkeys_def)
  from m k one r f show ?thesis by (intro conjI)
qed

end
